theory Spec2Isabelle
  imports Complex_Main "HOL-Library.Char_ord" "HOL-Library.List_Lexorder"
    "HOL-Library.Product_Lexorder"
begin

section \<open>Numeric binning helpers of \<^verbatim>\<open>dsutils.utils\<close>\<close>

text \<open>
  The development embeds the binning code of \<^verbatim>\<open>histograms.py\<close> and of
  \<^verbatim>\<open>binners-checkpoint.py\<close>. Python floats and numpy arrays are modelled by
  exact reals and lists of reals: every arithmetic step of the source is kept, but it is
  carried out without binary rounding error (so \<open>math.log(x, 10)\<close> is the exact
  logarithm). Exceptions are values of the type \<open>err\<close>; a function that can raise returns
  \<open>err + 'a\<close> with \<open>Inl\<close> for the exception.
\<close>

subsection \<open>Exceptions\<close>

text \<open>
  The \<open>ValueError\<close>s of the code and of the numeric library are told apart by a tag:
  \<^item> \<open>LogRangeIncludesZero\<close>: the explicit \<open>raise ValueError(msg)\<close> of the \<open>'log'\<close> branch;
  \<^item> \<open>MathDomain\<close>: \<open>math.log\<close> of zero;
  \<^item> \<open>EmptyReduction\<close>: \<open>np.min\<close>, \<open>np.nanmin\<close>, \<open>np.max\<close> of an empty array;
  \<^item> \<open>QuantileRange\<close>: \<open>np.quantile\<close> with a fraction outside \<open>[0, 1]\<close>;
  \<^item> \<open>NegativeNum\<close>: \<open>np.linspace\<close> with a negative \<open>num\<close>;
  \<^item> \<open>BadFormatChar\<close>: a \<open>%\<close>-format whose precision text starts with \<open>-\<close>;
  \<^item> \<open>Unpack\<close>: unpacking the empty result of \<open>zip(*z)\<close> into two names;
  \<^item> \<open>BinsNotIncreasing\<close>, \<open>LabelCount\<close>: \<open>pd.cut\<close> with decreasing bin edges, or with a
    number of labels other than the number of edges less one;
  \<^item> \<open>LengthMismatch\<close>: an assignment through \<open>df.loc\<close> of a sequence whose length is not
    the number of selected rows;
  \<^item> \<open>DuplicateCategories\<close>: \<open>pd.Categorical\<close> with a repeated category.
\<close>

datatype vmsg = LogRangeIncludesZero | MathDomain | EmptyReduction | QuantileRange
  | NegativeNum | BadFormatChar | Unpack | BinsNotIncreasing | LabelCount | LengthMismatch
  | DuplicateCategories

datatype err = ValueError vmsg | NameError string | UnboundLocalError string
  | KeyError string | IndexError | TypeError

subsection \<open>Printing numbers\<close>

definition digit_char :: "nat \<Rightarrow> char" where
  "digit_char d = ''0123456789'' ! d"

text \<open>\<open>str(n)\<close> for a natural number and for an integer.\<close>

fun str_nat :: "nat \<Rightarrow> string" where
  "str_nat n = (if n < 10 then [digit_char n] else str_nat (n div 10) @ [digit_char (n mod 10)])"

declare str_nat.simps [simp del]

definition str_int :: "int \<Rightarrow> string" where
  "str_int i = (if i < 0 then CHR ''-'' # str_nat (nat (- i)) else str_nat (nat i))"

text \<open>The last \<open>p\<close> decimal digits of \<open>m\<close>, padded with zeros on the left.\<close>

primrec frac_digits :: "nat \<Rightarrow> nat \<Rightarrow> string" where
  "frac_digits 0 m = []"
| "frac_digits (Suc p) m = frac_digits p (m div 10) @ [digit_char (m mod 10)]"

text \<open>Rounding to the nearest integer, ties to the even one (C \<open>rint\<close>, \<open>np.round\<close>, \<open>%f\<close>).\<close>

definition rint :: "real \<Rightarrow> int" where
  "rint x = (let f = \<lfloor>x\<rfloor>; d = x - of_int f in
     if d < 1/2 then f else if 1/2 < d then f + 1 else if even f then f else f + 1)"

text \<open>
  \<open>('%.' + str(prec) + 'f') % v\<close>. For a negative \<open>prec\<close> the format text is \<open>%.-1f\<close>
  and Python raises \<open>ValueError\<close> (unsupported format character). Otherwise the value is
  rounded to \<open>prec\<close> decimals and printed in fixed notation, without a point for \<open>prec = 0\<close>;
  a negative value keeps its sign even when it rounds to zero. The value rounded is the
  real number \<open>v\<close> itself. A decimal literal of Python stands for the nearest double, so
  the call \<open>'%.2f' % 2.675\<close> formats the double \<open>2.67499999999999982...\<close> and prints
  \<open>2.67\<close>, while \<open>fmt_f 2\<close> at the real number \<open>2.675\<close> rounds the tie to \<open>2.68\<close>.
\<close>

definition fmt_f :: "int \<Rightarrow> real \<Rightarrow> err + string" where
  "fmt_f prec v =
     (if prec < 0 then Inl (ValueError BadFormatChar)
      else let p = nat prec; n = nat \<bar>rint (v * 10 ^ p)\<bar>;
               body = str_nat (n div 10 ^ p) @
                 (if p = 0 then [] else CHR ''.'' # frac_digits p (n mod 10 ^ p))
           in Inr (if v < 0 then CHR ''-'' # body else body))"

definition units :: "string list" where
  "units = [[], ''K'', ''M'', ''G'', ''T'', ''P'']"

text \<open>
  \<open>human_readable_num\<close> of the binners module. The logarithms are exact here; the source
  computes them in floats, which changes the magnitude of a number just below a power of
  the base (see \<open>format_magnitude\<close> below).
\<close>

definition human_readable_num :: "real \<Rightarrow> int \<Rightarrow> err + string" where
  "human_readable_num number sig_fig =
     (if number = 0 then Inr ''0''
      else if \<bar>number\<bar> < 1 then
        (let magnitude = \<lfloor>log 10 \<bar>number\<bar>\<rfloor> in
         if magnitude \<ge> - 2 then fmt_f (sig_fig - 1 - magnitude) number
         else (let final_num = number / 10 powi magnitude in
               case fmt_f (sig_fig - 1) final_num of Inl e \<Rightarrow> Inl e
               | Inr s \<Rightarrow> Inr (s @ ''E'' @ str_int magnitude)))
      else
        (let magnitude = \<lfloor>log 1000 \<bar>number\<bar>\<rfloor>;
             final_num = number / 1000 powi magnitude;
             unit = (if magnitude > 5 then ''E'' @ str_int (3 * magnitude)
                     else units ! nat magnitude);
             prec = (if \<bar>final_num\<bar> < 10 then sig_fig - 1
                     else if \<bar>final_num\<bar> < 100 then sig_fig - 2 else sig_fig - 3)
         in case fmt_f prec final_num of Inl e \<Rightarrow> Inl e | Inr s \<Rightarrow> Inr (s @ unit)))"

text \<open>\<open>humanReadableNum\<close> of the histograms module: the same text under another name.\<close>

definition humanReadableNum :: "real \<Rightarrow> int \<Rightarrow> err + string" where
  "humanReadableNum number sigFig =
     (if number = 0 then Inr ''0''
      else if \<bar>number\<bar> < 1 then
        (let magnitude = \<lfloor>log 10 \<bar>number\<bar>\<rfloor> in
         if magnitude \<ge> - 2 then fmt_f (sigFig - 1 - magnitude) number
         else (let final_num = number / 10 powi magnitude in
               case fmt_f (sigFig - 1) final_num of Inl e \<Rightarrow> Inl e
               | Inr s \<Rightarrow> Inr (s @ ''E'' @ str_int magnitude)))
      else
        (let magnitude = \<lfloor>log 1000 \<bar>number\<bar>\<rfloor>;
             final_num = number / 1000 powi magnitude;
             unit = (if magnitude > 5 then ''E'' @ str_int (3 * magnitude)
                     else units ! nat magnitude);
             prec = (if \<bar>final_num\<bar> < 10 then sigFig - 1
                     else if \<bar>final_num\<bar> < 100 then sigFig - 2 else sigFig - 3)
         in case fmt_f prec final_num of Inl e \<Rightarrow> Inl e | Inr s \<Rightarrow> Inr (s @ unit)))"





subsection \<open>The numeric library\<close>

text \<open>
  The numpy routines that the code calls, on lists of reals. A sample handed to the
  cutpoint generators holds no missing marker: both callers filter with \<open>~np.isnan\<close>
  first, so \<open>np.min\<close> and \<open>np.nanmin\<close> agree.
\<close>

definition np_min :: "real list \<Rightarrow> err + real" where
  "np_min xs = (if xs = [] then Inl (ValueError EmptyReduction) else Inr (Min (set xs)))"

definition np_max :: "real list \<Rightarrow> err + real" where
  "np_max xs = (if xs = [] then Inl (ValueError EmptyReduction) else Inr (Max (set xs)))"

text \<open>\<open>np.unique\<close>: the distinct values in increasing order.\<close>

definition np_unique :: "real list \<Rightarrow> real list" where
  "np_unique xs = sort (remdups xs)"

text \<open>
  \<open>np.quantile\<close> with its default linear interpolation: the fraction \<open>q\<close> sits at the
  virtual index \<open>q * (n - 1)\<close> of the sorted sample, between its two neighbours. A
  fraction outside \<open>[0, 1]\<close> raises \<open>ValueError\<close>. The code calls it after \<open>np.min\<close> has
  succeeded, so on a non-empty sample only.
\<close>

definition quantile1 :: "real list \<Rightarrow> real \<Rightarrow> real" where
  "quantile1 xs q =
     (let s = sort xs; n = length xs; pos = q * real (n - 1);
          lo = nat \<lfloor>pos\<rfloor>; hi = min (lo + 1) (n - 1); frac = pos - real lo
      in s ! lo + (s ! hi - s ! lo) * frac)"

definition np_quantile :: "real list \<Rightarrow> real list \<Rightarrow> err + real list" where
  "np_quantile xs qs =
     (if \<exists>q \<in> set qs. q < 0 \<or> 1 < q then Inl (ValueError QuantileRange)
      else Inr (map (quantile1 xs) qs))"

text \<open>
  \<open>np.linspace(start, stop, num)\<close>: \<open>num\<close> evenly spaced points from \<open>start\<close> to
  \<open>stop\<close>, both included; no point for \<open>num = 0\<close>, only \<open>start\<close> for \<open>num = 1\<close>, and
  \<open>ValueError\<close> for a negative \<open>num\<close>.
\<close>

definition np_linspace :: "real \<Rightarrow> real \<Rightarrow> int \<Rightarrow> err + real list" where
  "np_linspace start stop num =
     (if num < 0 then Inl (ValueError NegativeNum)
      else if num = 1 then Inr [start]
      else Inr (map (\<lambda>i. start + real i * ((stop - start) / real (nat num - 1))) [0..<nat num]))"

text \<open>\<open>np.round(v, decimals)\<close>, also for a negative number of decimals.\<close>

definition np_round :: "real \<Rightarrow> int \<Rightarrow> real" where
  "np_round v decimals = of_int (rint (v * 10 powi decimals)) / 10 powi decimals"

text \<open>\<open>math.log(v, 10)\<close>, which raises \<open>ValueError\<close> (math domain error) unless \<open>v > 0\<close>.\<close>

definition py_log10 :: "real \<Rightarrow> err + real" where
  "py_log10 v = (if v \<le> 0 then Inl (ValueError MathDomain) else Inr (log 10 v))"

subsection \<open>Cutpoint generation\<close>

text \<open>
  A Python number is an \<open>int\<close> or a \<open>float\<close>; the quantile window is used only when both
  of its entries pass \<open>isinstance(_, float)\<close>. The \<open>cuts\<close> argument is a string or an
  array of cutpoints.
\<close>

datatype pynum = PyInt int | PyFloat real

datatype cuts = CutsStr string | CutsArr "real list"

text \<open>
  \<open>_log_spcl\<close> and \<open>_order_of_mag\<close> (written inline in the histograms module), with the
  exact logarithm. In floats \<open>math.log(1000, 10)\<close> is \<open>2.9999999999999996\<close>, so that the
  source has the order 2 for 1000 (and likewise one less at \<open>1e6\<close> and \<open>1e9\<close>) where
  \<open>order_of_mag\<close> is 3.
\<close>

definition log_spcl :: "real \<Rightarrow> real" where
  "log_spcl x = (if x = 0 then 0 else log 10 \<bar>x\<bar>)"

definition order_of_mag :: "real \<Rightarrow> int" where
  "order_of_mag x = (if x = 0 then 0 else \<lfloor>log_spcl x\<rfloor>)"

text \<open>
  The lower bound \<open>np.floor(lb * 10**lb_pwr) / 10**lb_pwr\<close> and the upper bound
  \<open>np.ceil(ub * 10**ub_pwr) / 10**ub_pwr\<close>.
\<close>

definition floor_sig :: "real \<Rightarrow> int \<Rightarrow> real" where
  "floor_sig lb sig_fig =
     (let lb_ord_of_mag = order_of_mag lb; lb_pwr = sig_fig - 1 - lb_ord_of_mag
      in of_int \<lfloor>lb * 10 powi lb_pwr\<rfloor> / 10 powi lb_pwr)"

definition ceil_sig :: "real \<Rightarrow> int \<Rightarrow> real" where
  "ceil_sig ub sig_fig =
     (let ub_ord_of_mag = order_of_mag ub; ub_pwr = sig_fig - 1 - ub_ord_of_mag
      in of_int \<lceil>ub * 10 powi ub_pwr\<rceil> / 10 powi ub_pwr)"

text \<open>The working endpoints \<open>ep\<close>: the two sample quantiles, or the two bounds.\<close>

definition endpoints ::
  "real list \<Rightarrow> pynum list option \<Rightarrow> real \<Rightarrow> real \<Rightarrow> err + real \<times> real" where
  "endpoints x qntl_cutoff lb ub =
     (case qntl_cutoff of
        Some [PyFloat q0, PyFloat q1] \<Rightarrow>
          (case np_quantile x [q0, q1] of Inl e \<Rightarrow> Inl e
           | Inr ep \<Rightarrow> Inr (ep ! 0, ep ! 1))
      | _ \<Rightarrow> Inr (lb, ub))"

text \<open>
  The first part of \<open>cutpoints\<close> and of \<open>numericVarCutpoints\<close>, which is the same text in
  both: the bounds \<open>lb\<close>, \<open>ub\<close> and the working endpoints \<open>ep[0]\<close>, \<open>ep[1]\<close>.
\<close>

definition bounds_endpoints ::
  "real list \<Rightarrow> pynum list option \<Rightarrow> int \<Rightarrow> err + (real \<times> real \<times> real \<times> real)" where
  "bounds_endpoints x qntl_cutoff sig_fig =
     (case np_min x of Inl e \<Rightarrow> Inl e | Inr lb0 \<Rightarrow>
      let lb = floor_sig lb0 sig_fig in
      case np_max x of Inl e \<Rightarrow> Inl e | Inr ub0 \<Rightarrow>
      let ub = ceil_sig ub0 sig_fig in
      case endpoints x qntl_cutoff lb ub of Inl e \<Rightarrow> Inl e
      | Inr (ep0, ep1) \<Rightarrow> Inr (lb, ub, ep0, ep1))"

text \<open>
  \<open>10**np.linspace(np.sign(ep[0])*math.log(a0, 10), np.sign(ep[1])*math.log(a1, 10), num)\<close>
  with \<open>a0\<close>, \<open>a1\<close> the absolute values of the endpoints (plus one for \<open>'logp1'\<close>).
\<close>

definition log_points :: "real \<Rightarrow> real \<Rightarrow> real \<Rightarrow> real \<Rightarrow> int \<Rightarrow> err + real list" where
  "log_points ep0 ep1 a0 a1 ncuts =
     (case py_log10 a0 of Inl e \<Rightarrow> Inl e | Inr l0 \<Rightarrow>
      case py_log10 a1 of Inl e \<Rightarrow> Inl e | Inr l1 \<Rightarrow>
      case np_linspace (sgn ep0 * l0) (sgn ep1 * l1) ncuts of Inl e \<Rightarrow> Inl e
      | Inr ys \<Rightarrow> Inr (map (\<lambda>y. 10 powr y) ys))"

text \<open>
  The interior points \<open>c\<close> by strategy. The two modules differ in the test that guards
  the \<open>'log'\<close> branch, which is the parameter \<open>includes_zero\<close>: \<open>ep[0] <= 0\<close> in the
  binners module, \<open>ep[0] == 0 or ep[1] == 0\<close> in the histograms module. A string that
  names no strategy leaves \<open>c\<close> unbound, and its first use raises.
\<close>

definition interior ::
  "(real \<Rightarrow> real \<Rightarrow> bool) \<Rightarrow> real list \<Rightarrow> cuts \<Rightarrow> int \<Rightarrow> real \<Rightarrow> real \<Rightarrow> err + real list" where
  "interior includes_zero x cuts ncuts ep0 ep1 =
     (case cuts of
        CutsArr c \<Rightarrow> Inr c
      | CutsStr s \<Rightarrow>
          if s = ''linear'' then np_linspace ep0 ep1 ncuts
          else if s = ''log'' then
            (if includes_zero ep0 ep1 then Inl (ValueError LogRangeIncludesZero)
             else log_points ep0 ep1 \<bar>ep0\<bar> \<bar>ep1\<bar> ncuts)
          else if s = ''logp1'' then
            (case log_points ep0 ep1 (\<bar>ep0\<bar> + 1) (\<bar>ep1\<bar> + 1) ncuts of Inl e \<Rightarrow> Inl e
             | Inr c \<Rightarrow> Inr (sort (np_unique (0 # c))))
          else if s = ''quantile'' then
            (case np_linspace 0 1 ncuts of Inl e \<Rightarrow> Inl e | Inr qs \<Rightarrow> np_quantile x qs)
          else Inl (UnboundLocalError ''c''))"

text \<open>
  Rounding one cutpoint to \<open>sig_fig\<close> significant figures, and the last lines of both
  generators: the bounds are added, duplicates dropped, every point rounded and
  duplicates dropped again.
\<close>

definition round_sig :: "int \<Rightarrow> real \<Rightarrow> real" where
  "round_sig sig_fig v =
     (let ord_of_mag = order_of_mag v
      in np_round (v / 10 powi ord_of_mag) (sig_fig - 1) * 10 powi ord_of_mag)"

definition round_cutpoints :: "int \<Rightarrow> real \<Rightarrow> real list \<Rightarrow> real \<Rightarrow> real list" where
  "round_cutpoints sig_fig lb c ub =
     (let c' = np_unique (lb # c @ [ub]) in np_unique (map (round_sig sig_fig) c'))"

text \<open>\<open>cutpoints\<close> of the binners module.\<close>

definition cutpoints ::
  "real list \<Rightarrow> pynum list option \<Rightarrow> cuts \<Rightarrow> int \<Rightarrow> int \<Rightarrow> err + real list" where
  "cutpoints x qntl_cutoff cuts ncuts sig_fig =
     (case bounds_endpoints x qntl_cutoff sig_fig of Inl e \<Rightarrow> Inl e
      | Inr (lb, ub, ep0, ep1) \<Rightarrow>
      case interior (\<lambda>ep0 ep1. ep0 \<le> 0) x cuts ncuts ep0 ep1 of Inl e \<Rightarrow> Inl e
      | Inr c \<Rightarrow> Inr (round_cutpoints sig_fig lb c ub))"

text \<open>A list comprehension whose body can raise.\<close>

primrec map_err :: "('a \<Rightarrow> err + 'b) \<Rightarrow> 'a list \<Rightarrow> err + 'b list" where
  "map_err f [] = Inr []"
| "map_err f (a # as) =
     (case f a of Inl e \<Rightarrow> Inl e
      | Inr b \<Rightarrow> (case map_err f as of Inl e \<Rightarrow> Inl e | Inr bs \<Rightarrow> Inr (b # bs)))"

text \<open>
  \<open>numericVarCutpoints\<close> of the histograms module, which also returns the formatted
  cutpoints.
\<close>

definition numericVarCutpoints ::
  "real list \<Rightarrow> pynum list option \<Rightarrow> cuts \<Rightarrow> int \<Rightarrow> int \<Rightarrow> err + (real list \<times> string list)" where
  "numericVarCutpoints x qntlCutoff cuts ncuts sigFig =
     (case bounds_endpoints x qntlCutoff sigFig of Inl e \<Rightarrow> Inl e
      | Inr (lb, ub, ep0, ep1) \<Rightarrow>
      case interior (\<lambda>ep0 ep1. ep0 = 0 \<or> ep1 = 0) x cuts ncuts ep0 ep1 of Inl e \<Rightarrow> Inl e
      | Inr c \<Rightarrow>
        let c_final = round_cutpoints sigFig lb c ub in
        case map_err (\<lambda>i. humanReadableNum i sigFig) c_final of Inl e \<Rightarrow> Inl e
        | Inr c_format \<Rightarrow> Inr (c_final, c_format))"

subsection \<open>Bin assembly\<close>

text \<open>
  \<open>min(range(len(keys)), key=lambda i: keys[i])\<close>: the first index whose key is least.
  The scan keeps the best index so far and replaces it only by a strictly smaller key.
\<close>

primrec argmin_acc :: "real list \<Rightarrow> nat \<Rightarrow> nat \<Rightarrow> real \<Rightarrow> nat" where
  "argmin_acc [] i best best_key = best"
| "argmin_acc (k # ks) i best best_key =
     (if k < best_key then argmin_acc ks (Suc i) i k else argmin_acc ks (Suc i) best best_key)"

definition argmin_first :: "real list \<Rightarrow> nat" where
  "argmin_first keys = (case keys of [] \<Rightarrow> 0 | k # ks \<Rightarrow> argmin_acc ks 1 0 k)"

text \<open>
  The index, in \<open>cps\<close>, of the interior cutpoint \<open>cps[1:-1]\<close> nearest to the point mass
  \<open>j\<close>.
\<close>

definition nearest_interior :: "real list \<Rightarrow> real \<Rightarrow> nat" where
  "nearest_interior cps j =
     (let cps_int = butlast (tl cps) in argmin_first (map (\<lambda>c. \<bar>c - j\<bar>) cps_int) + 1)"

text \<open>
  \<open>del xs[i]\<close>, and the loop that deletes the marked indices from the cutpoints and from
  their formatted texts; an index beyond a list raises \<open>IndexError\<close>.
\<close>

definition del_at :: "nat \<Rightarrow> 'a list \<Rightarrow> 'a list" where
  "del_at i xs = take i xs @ drop (Suc i) xs"

fun del_all :: "nat list \<Rightarrow> real list \<Rightarrow> string list \<Rightarrow> err + (real list \<times> string list)" where
  "del_all [] cps cps_format = Inr (cps, cps_format)"
| "del_all (index # rest) cps cps_format =
     (if index < length cps \<and> index < length cps_format
      then del_all rest (del_at index cps) (del_at index cps_format)
      else Inl IndexError)"

text \<open>\<open>s.zfill(2)\<close> for the text of a natural number.\<close>

definition zfill2 :: "string \<Rightarrow> string" where
  "zfill2 s = replicate (2 - length s) CHR ''0'' @ s"

text \<open>
  One round of the labelling loop at index \<open>i\<close>, on the state \<open>(cntr, bin_labels,
  pm_labels)\<close>: a point-bin label when \<open>c_final[i]\<close> is a point mass, then a range-bin
  label unless \<open>i\<close> is the last index.
\<close>

definition label_step ::
  "real list \<Rightarrow> string list \<Rightarrow> real list \<Rightarrow> nat \<Rightarrow> nat \<times> string list \<times> string list
     \<Rightarrow> nat \<times> string list \<times> string list" where
  "label_step c_final c_format pm i st =
     (case st of (cntr, bin_labels, pm_labels) \<Rightarrow>
        let (cntr, pm_labels) =
              (if c_final ! i \<in> set pm
               then (cntr + 1, pm_labels @ [zfill2 (str_nat (i + cntr + 1)) @ '': '' @ c_format ! i])
               else (cntr, pm_labels));
            bin_labels =
              (if i < length c_final - 1
               then bin_labels @ [zfill2 (str_nat (i + cntr + 1)) @ '': '' @ c_format ! i @
                                    '' - '' @ c_format ! (i + 1)]
               else bin_labels)
        in (cntr, bin_labels, pm_labels))"

text \<open>
  \<open>_finalize_bins\<close>, in its two parts: the removal of the cutpoints nearest to the
  point masses, and the merge with the point masses followed by the labelling loop. The
  set of pairs \<open>z\<close> is a list without duplicates; its order does not matter, since both
  lists are sorted afterwards (pairs are compared lexicographically, as tuples are).
\<close>

definition remove_nearest ::
  "real list \<Rightarrow> string list \<Rightarrow> real list \<Rightarrow> err + (real list \<times> string list)" where
  "remove_nearest cps cps_format pm =
     (if length cps > 2
      then let ridx = map (nearest_interior cps) pm; ridx = remdups ridx
           in del_all (rev (sort ridx)) cps cps_format
      else Inr (cps, cps_format))"

definition merge_bins ::
  "real list \<Rightarrow> string list \<Rightarrow> real list \<Rightarrow> string list
     \<Rightarrow> err + (real list \<times> string list \<times> string list)" where
  "merge_bins cps cps_format pm pm_format =
     (let c_final = cps @ pm; c_format = cps_format @ pm_format;
          z = remdups (zip c_final c_format)
      in if z = [] then Inl (ValueError Unpack)
         else let c_format = map snd (sort z); c_final = sort (map fst z);
                  (cntr, bin_labels, pm_labels) =
                     fold (label_step c_final c_format pm) [0..<length c_final] (0, [], [])
              in Inr (c_final, bin_labels, pm_labels))"

definition finalize_bins ::
  "real list \<Rightarrow> string list \<Rightarrow> real list \<Rightarrow> string list
     \<Rightarrow> err + (real list \<times> string list \<times> string list)" where
  "finalize_bins cps cps_format pm pm_format =
     (case remove_nearest cps cps_format pm of
        Inl e \<Rightarrow> Inl e
      | Inr (cps, cps_format) \<Rightarrow> merge_bins cps cps_format pm pm_format)"

subsection \<open>Data frames and the tabular library\<close>

text \<open>
  A column of a data frame holds floats, with \<open>None\<close> for the missing marker \<open>NaN\<close>, or
  objects (texts), or categories; a data frame is a list of named columns. A categorical
  is the list of its values (\<open>None\<close> for \<open>NaN\<close>) with the list of its categories.
\<close>

datatype column = NumCol "real option list" | ObjCol "string option list"
  | CatCol "string option list" "string list"

type_synonym dataframe = "(string \<times> column) list"

type_synonym categorical = "string option list \<times> string list"

text \<open>
  \<open>np.isnan(df.loc[:,x].values)\<close>: \<open>KeyError\<close> when the frame has no column \<open>x\<close>,
  \<open>TypeError\<close> when the column does not hold numbers.
\<close>

definition numeric_values :: "dataframe \<Rightarrow> string \<Rightarrow> err + real option list" where
  "numeric_values df x =
     (case map_of df x of
        None \<Rightarrow> Inl (KeyError x)
      | Some (NumCol vs) \<Rightarrow> Inr vs
      | Some (ObjCol vs) \<Rightarrow> Inl TypeError
      | Some (CatCol vs cs) \<Rightarrow> Inl TypeError)"

text \<open>The values selected by \<open>~np.isnan(...)\<close>.\<close>

definition no_nan :: "real option list \<Rightarrow> real list" where
  "no_nan vs = List.map_filter (\<lambda>v. v) vs"

text \<open>
  \<open>pd.cut(x, bins, labels=labels, include_lowest=True)\<close> is a routine of the tabular
  library. The two \<open>cutter\<close> functions take it as the parameter \<open>bucket\<close>, so that what is
  proved about them holds whatever the routine returns or raises. Its documented
  behaviour on increasing edges without duplicates is \<open>pd_cut\<close>: a value gets the label
  of the interval \<open>(bins[i], bins[i+1]]\<close> that holds it, the first interval also holding
  its left edge; a missing value and a value outside all intervals get \<open>NaN\<close>.
\<close>

type_synonym cut_routine = "real option list \<Rightarrow> real list \<Rightarrow> string list \<Rightarrow> err + categorical"

definition pd_cut :: cut_routine where
  "pd_cut x bins labels =
     (if \<not> sorted bins then Inl (ValueError BinsNotIncreasing)
      else if int (length labels) \<noteq> int (length bins) - 1 then Inl (ValueError LabelCount)
      else Inr (map (\<lambda>v. case v of
                     None \<Rightarrow> None
                   | Some v \<Rightarrow>
                      (case filter (\<lambda>i. (bins ! i < v \<or> (i = 0 \<and> v = bins ! 0)) \<and> v \<le> bins ! (i + 1))
                              [0..<length bins - 1] of
                         [] \<Rightarrow> None
                       | i # _ \<Rightarrow> Some (labels ! i))) x,
                labels))"

text \<open>
  \<open>df.loc[ms, col] = values\<close> for a mask \<open>ms\<close> and a column that does not exist
  yet: the selected rows take the values in order, the other rows are \<open>NaN\<close>.
\<close>

primrec scatter :: "bool list \<Rightarrow> 'a option list \<Rightarrow> 'a option list" where
  "scatter [] vs = []"
| "scatter (m # ms) vs =
     (if m then (case vs of [] \<Rightarrow> None # scatter ms [] | v # vs' \<Rightarrow> v # scatter ms vs')
      else None # scatter ms vs)"

definition loc_assign :: "bool list \<Rightarrow> 'a option list \<Rightarrow> err + 'a option list" where
  "loc_assign ms vs =
     (if length vs \<noteq> length (filter (\<lambda>m. m) ms) then Inl (ValueError LengthMismatch)
      else Inr (scatter ms vs))"

text \<open>
  \<open>pd.Categorical(values, categories=categories)\<close>: the categories must be distinct, and
  a value that is no category becomes \<open>NaN\<close>.
\<close>

definition pd_Categorical :: "string option list \<Rightarrow> string list \<Rightarrow> err + categorical" where
  "pd_Categorical vals categories =
     (if \<not> distinct categories then Inl (ValueError DuplicateCategories)
      else Inr (map (\<lambda>v. case v of None \<Rightarrow> None
                      | Some l \<Rightarrow> if l \<in> set categories then Some l else None) vals,
                categories))"

text \<open>\<open>df.assign(**{new_col: c})\<close>: the column replaces one of that name, or is appended.\<close>

definition assign :: "dataframe \<Rightarrow> string \<Rightarrow> column \<Rightarrow> dataframe" where
  "assign df new_col c =
     (if new_col \<in> fst ` set df
      then map (\<lambda>(k, v). if k = new_col then (k, c) else (k, v)) df
      else df @ [(new_col, c)])"

subsection \<open>Binning a column: the histograms module\<close>

text \<open>A keyword argument, or the default of the parameter when the key is absent.\<close>

fun get_default :: "'a \<Rightarrow> 'a option \<Rightarrow> 'a" where
  "get_default d None = d"
| "get_default d (Some a) = a"

text \<open>
  The keyword arguments \<open>**kwargs\<close> that \<open>cutter\<close> and \<open>binner\<close> hand on to
  \<open>numericVarCutpoints\<close>; a field is \<open>None\<close> when the key is absent. Any other key is
  accepted and ignored by \<open>numericVarCutpoints\<close>.
\<close>

record kwargs_histograms =
  h_qntlCutoff :: "pynum list option option"
  h_cuts :: "cuts option"
  h_ncuts :: "int option"
  h_sigFig :: "int option"

text \<open>\<open>cutter\<close> of the histograms module.\<close>

definition histograms_cutter ::
  "cut_routine \<Rightarrow> dataframe \<Rightarrow> string \<Rightarrow> int \<Rightarrow> kwargs_histograms \<Rightarrow> err + categorical" where
  "histograms_cutter bucket df x max_levels kwargs =
     (case numeric_values df x of Inl e \<Rightarrow> Inl e
      | Inr vs \<Rightarrow>
      case numericVarCutpoints (no_nan vs)
             (get_default (Some [PyFloat (25/1000), PyFloat (975/1000)]) (h_qntlCutoff kwargs))
             (get_default (CutsStr ''linear'') (h_cuts kwargs))
             (get_default 10 (h_ncuts kwargs))
             (get_default 3 (h_sigFig kwargs)) of Inl e \<Rightarrow> Inl e
      | Inr f \<Rightarrow>
        let labels = map (\<lambda>i. zfill2 (str_nat (i + 1)) @ '': '' @ snd f ! i @ '' - '' @
                               snd f ! (i + 1)) [0..<length (snd f) - 1]
        in bucket vs (fst f) labels)"

text \<open>
  \<open>binner\<close> of the histograms module. The name \<open>fill_na\<close> is bound nowhere (the parameter
  is \<open>fill_nan\<close>), so the test that follows the assignment raises \<open>NameError\<close>.
\<close>

definition binner ::
  "cut_routine \<Rightarrow> dataframe \<Rightarrow> string \<Rightarrow> string \<Rightarrow> string option \<Rightarrow> int \<Rightarrow> kwargs_histograms
     \<Rightarrow> err + dataframe" where
  "binner bucket df x new_col fill_nan max_levels kwargs =
     (case histograms_cutter bucket df x max_levels kwargs of Inl e \<Rightarrow> Inl e
      | Inr z \<Rightarrow>
        let df' = assign df new_col (CatCol (fst z) (snd z))
        in Inl (NameError ''fill_na''))"

subsection \<open>Binning a column: the binners module\<close>

text \<open>
  \<open>_point_mass\<close>: the values whose share of the non-missing rows exceeds the threshold,
  in increasing order.
\<close>

definition point_mass :: "real option list \<Rightarrow> real \<Rightarrow> real list" where
  "point_mass x threshold =
     (let vals = no_nan x
      in sort (filter (\<lambda>v. real (count_list vals v) / real (length vals) > threshold)
                 (remdups vals)))"

text \<open>
  The keyword arguments of a call \<open>cutter(df, x, max_levels, **kwargs)\<close>: the first two
  are parameters of \<open>cutter\<close>, the others are handed on to \<open>cutpoints\<close>, where \<open>ncuts\<close>
  collides with the \<open>ncuts = max_levels\<close> of the call and raises \<open>TypeError\<close>.
\<close>

record kwargs_binners =
  b_point_mass_threshold :: "real option"
  b_sig_fig :: "int option"
  b_qntl_cutoff :: "pynum list option option"
  b_cuts :: "cuts option"
  b_ncuts :: "int option"

definition cutter_cutpoints ::
  "real list \<Rightarrow> int \<Rightarrow> int \<Rightarrow> kwargs_binners \<Rightarrow> err + (real list \<times> string list)" where
  "cutter_cutpoints vals max_levels sig_fig kwargs =
     (if b_ncuts kwargs \<noteq> None then Inl TypeError
      else case cutpoints vals
                  (get_default (Some [PyFloat (25/1000), PyFloat (975/1000)]) (b_qntl_cutoff kwargs))
                  (get_default (CutsStr ''linear'') (b_cuts kwargs)) max_levels 3 of
             Inl e \<Rightarrow> Inl e
           | Inr cps \<Rightarrow>
             (case map_err (\<lambda>i. human_readable_num i sig_fig) cps of Inl e \<Rightarrow> Inl e
              | Inr cps_format \<Rightarrow> Inr (cps, cps_format)))"

text \<open>
  The first part of \<open>cutter\<close>, up to the call of \<open>_finalize_bins\<close>: the point masses, the
  merged boundaries and the two lists of labels.
\<close>

definition cutter_bins ::
  "real option list \<Rightarrow> int \<Rightarrow> real \<Rightarrow> int \<Rightarrow> kwargs_binners
     \<Rightarrow> err + (real list \<times> real list \<times> string list \<times> string list)" where
  "cutter_bins col max_levels point_mass_threshold sig_fig kwargs =
     (let pm = point_mass col point_mass_threshold in
      case
        (if length pm = 0 then
           (case cutter_cutpoints (no_nan col) max_levels sig_fig kwargs of Inl e \<Rightarrow> Inl e
            | Inr (cps, cps_format) \<Rightarrow> Inr (cps, cps_format, []))
         else
           let rem = filter (\<lambda>v. v \<notin> set pm) (no_nan col) in
           case (if length rem > 0 then cutter_cutpoints rem max_levels sig_fig kwargs
                 else Inr ([], [])) of Inl e \<Rightarrow> Inl e
           | Inr (cps, cps_format) \<Rightarrow>
             (case map_err (\<lambda>i. human_readable_num i sig_fig) pm of Inl e \<Rightarrow> Inl e
              | Inr pm_format \<Rightarrow> Inr (cps, cps_format, pm_format)))
      of Inl e \<Rightarrow> Inl e
      | Inr (cps, cps_format, pm_format) \<Rightarrow>
        (case finalize_bins cps cps_format pm pm_format of Inl e \<Rightarrow> Inl e
         | Inr (c_final, bin_labels, pm_labels) \<Rightarrow> Inr (pm, c_final, bin_labels, pm_labels)))"

text \<open>
  The loop \<open>for i,v in enumerate(pm): df.loc[df[x] == v, x + '_BINNED'] = pm_labels[i]\<close>.
\<close>

fun assign_point_masses ::
  "real option list \<Rightarrow> string list \<Rightarrow> (nat \<times> real) list \<Rightarrow> string option list
     \<Rightarrow> err + string option list" where
  "assign_point_masses col pm_labels [] binned = Inr binned"
| "assign_point_masses col pm_labels ((i, v) # rest) binned =
     (if i < length pm_labels
      then assign_point_masses col pm_labels rest
             (map (\<lambda>(val, b). if val = Some v then Some (pm_labels ! i) else b) (zip col binned))
      else Inl IndexError)"

text \<open>\<open>cutter\<close> of the binners module.\<close>

definition binners_cutter ::
  "cut_routine \<Rightarrow> dataframe \<Rightarrow> string \<Rightarrow> int \<Rightarrow> kwargs_binners \<Rightarrow> err + categorical" where
  "binners_cutter bucket df x max_levels kwargs =
     (let point_mass_threshold = get_default (1/10) (b_point_mass_threshold kwargs);
          sig_fig = get_default 3 (b_sig_fig kwargs)
      in case numeric_values df x of Inl e \<Rightarrow> Inl e
      | Inr col \<Rightarrow>
      case cutter_bins col max_levels point_mass_threshold sig_fig kwargs of Inl e \<Rightarrow> Inl e
      | Inr (pm, c_final, bin_labels, pm_labels) \<Rightarrow>
      let not_pm = map (\<lambda>v. v \<notin> Some ` set pm) col in
      case bucket (filter (\<lambda>v. v \<notin> Some ` set pm) col) c_final bin_labels of Inl e \<Rightarrow> Inl e
      | Inr binned \<Rightarrow>
      case loc_assign not_pm (fst binned) of Inl e \<Rightarrow> Inl e
      | Inr column \<Rightarrow>
      case assign_point_masses col pm_labels (enumerate 0 pm) column of Inl e \<Rightarrow> Inl e
      | Inr column \<Rightarrow>
        let final_labels = sort (bin_labels @ pm_labels)
        in pd_Categorical column final_labels)"

text \<open>\<open>binner_df\<close> of the binners module, with the same unbound name \<open>fill_na\<close>.\<close>

definition binner_df ::
  "cut_routine \<Rightarrow> dataframe \<Rightarrow> string \<Rightarrow> string \<Rightarrow> string option \<Rightarrow> int \<Rightarrow> kwargs_binners
     \<Rightarrow> err + dataframe" where
  "binner_df bucket df x new_col fill_nan max_levels kwargs =
     (case binners_cutter bucket df x max_levels kwargs of Inl e \<Rightarrow> Inl e
      | Inr z \<Rightarrow>
        let df' = assign df new_col (CatCol (fst z) (snd z))
        in Inl (NameError ''fill_na''))"

section \<open>Properties\<close>

subsection \<open>Evaluating the logarithm's floor\<close>

lemma floor_log_eqI:
  assumes "1 < b" "b powi k \<le> x" "x < b powi (k + 1)"
  shows "\<lfloor>log b x\<rfloor> = k"
proof -
  have b0: "0 < b" using assms(1) by simp
  have "0 < b powi k" using b0 by simp
  then have x0: "0 < x" using assms(2) by linarith
  have "b powr (of_int k) \<le> x" using assms(2) b0 by (simp add: powr_real_of_int')
  moreover have "x < b powr (of_int k + 1)"
    using assms(3) b0 powr_real_of_int'[of b "k+1"] by (simp add: add.commute)
  ultimately show ?thesis using floor_log_eq_powr_iff[OF x0 assms(1)] by simp
qed

subsection \<open>The number formatter\<close>

lemma humanReadableNum_eq: "humanReadableNum = human_readable_num"
  by (intro ext) (simp add: humanReadableNum_def human_readable_num_def)

lemma fmt_f_1234: "fmt_f 2 (1234 / 1000 powi 1) = Inr ''1.23''"
proof -
  have r: "rint (1234 / 1000 * 10 ^ 2) = 123" by (simp add: rint_def Let_def)
  have s: "str_nat (123 div 10 ^ 2) @ CHR ''.'' # frac_digits 2 (123 mod 10 ^ 2) = ''1.23''"
    by code_simp
  show ?thesis unfolding fmt_f_def Let_def using r s by simp
qed

lemma hrn_1234: "human_readable_num 1234 3 = Inr ''1.23K''"
proof -
  have m: "\<lfloor>log 1000 \<bar>1234 :: real\<bar>\<rfloor> = 1" by (rule floor_log_eqI) simp_all
  show ?thesis unfolding human_readable_num_def Let_def m using fmt_f_1234
    by (simp add: units_def)
qed

lemma fmt_f_4567: "fmt_f 2 (4567 / 1000000 / 10 powi (- 3)) = Inr ''4.57''"
proof -
  have r: "rint (4567 / 10) = 457" by (simp add: rint_def Let_def)
  have s: "str_nat (457 div 10 ^ 2) @ CHR ''.'' # frac_digits 2 (457 mod 10 ^ 2) = ''4.57''"
    by code_simp
  show ?thesis unfolding fmt_f_def Let_def using r s by (simp add: power_int_minus)
qed

lemma hrn_4567: "human_readable_num (4567 / 1000000) 3 = Inr ''4.57E-3''"
proof -
  have m: "\<lfloor>log 10 \<bar>4567 / 1000000 :: real\<bar>\<rfloor> = - 3"
    by (rule floor_log_eqI) (simp_all add: power_int_minus)
  have s: "str_int (- 3) = ''-3''" by code_simp
  show ?thesis unfolding human_readable_num_def Let_def m using fmt_f_4567 s by simp
qed

text \<open>
  Claim C6. The formatter gives \<open>format(1234, 3) = "1.23K"\<close>,
  \<open>format(0.004567, 3) = "4.57E-3"\<close> and \<open>format(0, s) = "0"\<close> for every
  significant-figure setting \<open>s\<close>, in both modules.
\<close>

theorem human_readable_num_examples:
  "human_readable_num 1234 3 = Inr ''1.23K'' \<and>
   human_readable_num (4567 / 1000000) 3 = Inr ''4.57E-3'' \<and>
   (\<forall>s. human_readable_num 0 s = Inr ''0'') \<and>
   humanReadableNum 1234 3 = Inr ''1.23K'' \<and>
   humanReadableNum (4567 / 1000000) 3 = Inr ''4.57E-3'' \<and>
   (\<forall>s. humanReadableNum 0 s = Inr ''0'')"
proof -
  have z: "human_readable_num 0 s = Inr ''0''" for s
    by (simp add: human_readable_num_def)
  show ?thesis unfolding humanReadableNum_eq using hrn_1234 hrn_4567 z by simp
qed

subsection \<open>Decimal places of a formatted number\<close>

















subsection \<open>Shape of the generated cutpoints\<close>

lemma np_unique_strict: "sorted_wrt (<) (np_unique xs)"
  by (simp add: np_unique_def strict_sorted_iff)

lemma set_np_unique [simp]: "set (np_unique xs) = set xs"
  by (simp add: np_unique_def)

lemma np_unique_Nil_iff [simp]: "np_unique xs = [] \<longleftrightarrow> xs = []"
  by (metis np_unique_def set_empty set_sort set_remdups)

lemma round_cutpoints_strict: "sorted_wrt (<) (round_cutpoints s lb c ub)"
  by (simp add: round_cutpoints_def Let_def np_unique_strict)

lemma round_cutpoints_nonempty: "round_cutpoints s lb c ub \<noteq> []"
  by (simp add: round_cutpoints_def Let_def)

lemma set_round_cutpoints:
  "set (round_cutpoints s lb c ub) = round_sig s ` (insert lb (insert ub (set c)))"
  by (auto simp: round_cutpoints_def Let_def)

lemma cutpoints_InrD:
  assumes "cutpoints x q cuts ncuts s = Inr cs"
  obtains lb ub ep0 ep1 c where "bounds_endpoints x q s = Inr (lb, ub, ep0, ep1)"
    "interior (\<lambda>ep0 ep1. ep0 \<le> 0) x cuts ncuts ep0 ep1 = Inr c" "cs = round_cutpoints s lb c ub"
  using assms by (auto simp: cutpoints_def split: sum.splits prod.splits)

lemma upt10: "[0..<10] = [0,1,2,3,4,5,6,7,8,9]"
  by code_simp

lemma order_of_mag_5: "order_of_mag 5 = 0"
  by (simp add: order_of_mag_def log_spcl_def floor_log_eqI[of 10 0 5])

lemma cutpoints_five:
  "cutpoints [5] (Some [PyFloat (25/1000), PyFloat (975/1000)]) (CutsStr ''linear'') 10 3 = Inr [5]"
proof -
  have q: "np_quantile [5] [1/40, 39/40] = Inr [5,5]"
    by (simp add: np_quantile_def quantile1_def Let_def)
  have b: "bounds_endpoints [5] (Some [PyFloat (1/40), PyFloat (39/40)]) 3 = Inr (5, 5, 5, 5)"
    by (simp add: bounds_endpoints_def np_min_def np_max_def floor_sig_def ceil_sig_def
        order_of_mag_5 endpoints_def q Let_def)
  have l: "np_linspace 5 5 10 = Inr [5,5,5,5,5,5,5,5,5,5]"
    by (simp add: np_linspace_def upt10)
  have r: "round_sig 3 5 = 5"
    by (simp add: round_sig_def order_of_mag_5 np_round_def rint_def Let_def)
  have "round_cutpoints 3 5 [5,5,5,5,5,5,5,5,5,5] 5 = [5]"
    by (simp add: round_cutpoints_def np_unique_def r Let_def)
  then show ?thesis by (simp add: cutpoints_def b interior_def l)
qed

subsection \<open>The error of the \<open>'log'\<close> strategy\<close>

lemma bounds_endpoints_not_log: "bounds_endpoints x q s \<noteq> Inl (ValueError LogRangeIncludesZero)"
  by (auto simp: bounds_endpoints_def np_min_def np_max_def endpoints_def np_quantile_def Let_def
      split: sum.splits option.splits list.splits pynum.splits if_splits)

lemma np_linspace_not_log: "np_linspace a b n \<noteq> Inl (ValueError LogRangeIncludesZero)"
  by (auto simp: np_linspace_def)

lemma log_points_not_log: "log_points e0 e1 a0 a1 n \<noteq> Inl (ValueError LogRangeIncludesZero)"
  by (auto simp: log_points_def py_log10_def np_linspace_def split: sum.splits if_splits)

lemma np_quantile_not_log: "np_quantile x qs \<noteq> Inl (ValueError LogRangeIncludesZero)"
  by (auto simp: np_quantile_def)

lemma interior_log_iff:
  "interior z x cuts n e0 e1 = Inl (ValueError LogRangeIncludesZero) \<longleftrightarrow>
     cuts = CutsStr ''log'' \<and> z e0 e1"
  using np_linspace_not_log log_points_not_log np_quantile_not_log
  by (auto simp: interior_def split: cuts.splits sum.splits if_splits)

lemma map_err_hrn_not_log:
  "map_err (\<lambda>i. humanReadableNum i s) cs \<noteq> Inl (ValueError LogRangeIncludesZero)"
proof (induction cs)
  case Nil
  then show ?case by simp
next
  case (Cons a cs)
  have "humanReadableNum a s \<noteq> Inl (ValueError LogRangeIncludesZero)"
    by (auto simp: humanReadableNum_def fmt_f_def Let_def split: sum.splits if_splits)
  then show ?case using Cons by (auto split: sum.splits)
qed

lemma case_sum_Inl_iff:
  "(case r of Inl e \<Rightarrow> Inl e | Inr c \<Rightarrow> Inr (f c)) = Inl e' \<longleftrightarrow> r = Inl e'"
  by (cases r) auto

lemma cutpoints_log_iff:
  "cutpoints x q cuts ncuts s = Inl (ValueError LogRangeIncludesZero) \<longleftrightarrow>
      cuts = CutsStr ''log'' \<and>
      (\<exists>lb ub ep0 ep1. bounds_endpoints x q s = Inr (lb, ub, ep0, ep1) \<and> ep0 \<le> 0)"
proof (cases "bounds_endpoints x q s")
  case (Inl e)
  then show ?thesis using bounds_endpoints_not_log[of x q s] by (simp add: cutpoints_def)
next
  case (Inr t)
  obtain lb ub ep0 ep1 where t: "t = (lb, ub, ep0, ep1)" by (cases t) auto
  show ?thesis using Inr t by (simp add: cutpoints_def case_sum_Inl_iff interior_log_iff)
qed

lemma numericVarCutpoints_log_iff:
  "numericVarCutpoints x q cuts ncuts s = Inl (ValueError LogRangeIncludesZero) \<longleftrightarrow>
      cuts = CutsStr ''log'' \<and>
      (\<exists>lb ub ep0 ep1. bounds_endpoints x q s = Inr (lb, ub, ep0, ep1) \<and> (ep0 = 0 \<or> ep1 = 0))"
proof (cases "bounds_endpoints x q s")
  case (Inl e)
  then show ?thesis using bounds_endpoints_not_log[of x q s] by (simp add: numericVarCutpoints_def)
next
  case (Inr t)
  obtain lb ub ep0 ep1 where t: "t = (lb, ub, ep0, ep1)" by (cases t) auto
  let ?i = "interior (\<lambda>ep0 ep1. ep0 = 0 \<or> ep1 = 0) x cuts ncuts ep0 ep1"
  have "numericVarCutpoints x q cuts ncuts s = Inl (ValueError LogRangeIncludesZero) \<longleftrightarrow>
      ?i = Inl (ValueError LogRangeIncludesZero)"
  proof (cases ?i)
    case (Inl e)
    then show ?thesis using Inr t by (simp add: numericVarCutpoints_def)
  next
    case (Inr c)
    then show ?thesis using \<open>bounds_endpoints x q s = Inr t\<close> t
        map_err_hrn_not_log[of s "round_cutpoints s lb c ub"]
      by (auto simp: numericVarCutpoints_def Let_def split: sum.splits)
  qed
  then show ?thesis using Inr t by (simp add: interior_log_iff)
qed

lemma fmt_f_Inr: "0 \<le> p \<Longrightarrow> \<not> isl (fmt_f p v)"
  by (simp add: fmt_f_def Let_def)

lemma humanReadableNum_total:
  assumes "3 \<le> s"
  shows "\<not> isl (humanReadableNum v s)"
proof -
  have neg: "\<lfloor>log 10 \<bar>v\<bar>\<rfloor> \<le> - 1" if "v \<noteq> 0" "\<bar>v\<bar> < 1"
  proof -
    have "log 10 \<bar>v\<bar> < 0" using that by simp
    then show ?thesis by linarith
  qed
  have a: "\<not> isl (case r of Inl e \<Rightarrow> Inl e | Inr t \<Rightarrow> Inr (t @ u))" if "\<not> isl r"
    for r :: "err + string" and u
    using that by (cases r) auto
  show ?thesis
  proof (cases "v = 0")
    case True
    then show ?thesis by (simp add: humanReadableNum_def)
  next
    case v0: False
    show ?thesis
    proof (cases "\<bar>v\<bar> < 1")
      case True
      then show ?thesis using v0 neg[OF v0 True] assms
        by (auto simp: humanReadableNum_def Let_def intro!: a fmt_f_Inr)
    next
      case False
      then show ?thesis using v0 assms
        by (auto simp: humanReadableNum_def Let_def intro!: a fmt_f_Inr)
    qed
  qed
qed

lemma map_err_total: "(\<And>a. \<not> isl (f a)) \<Longrightarrow> \<not> isl (map_err f xs)"
proof (induction xs)
  case Nil
  then show ?case by simp
next
  case (Cons a xs)
  then show ?case using Cons.prems[of a] by (cases "f a"; cases "map_err f xs") auto
qed

lemma log_points_total: "0 < a0 \<Longrightarrow> 0 < a1 \<Longrightarrow> 0 \<le> n \<Longrightarrow> \<not> isl (log_points e0 e1 a0 a1 n)"
  by (simp add: log_points_def py_log10_def np_linspace_def)

lemma order_of_mag_4: "order_of_mag (- 4) = 0"
  by (simp add: order_of_mag_def log_spcl_def floor_log_eqI[of 10 0 4])

lemma order_of_mag_2: "order_of_mag (- 2) = 0" "order_of_mag 2 = 0"
  by (simp_all add: order_of_mag_def log_spcl_def floor_log_eqI[of 10 0 2])

lemma bounds_endpoints_neg:
  "bounds_endpoints [- 4, - 2] (Some [PyFloat (1/40), PyFloat (39/40)]) 3
      = Inr (- 4, - 2, - (79/20), - (41/20))"
proof -
  have q: "np_quantile [- 4, - 2] [1/40, 39/40] = Inr [- (79/20), - (41/20)]"
    by (simp add: np_quantile_def quantile1_def Let_def)
  show ?thesis
    by (simp add: bounds_endpoints_def np_min_def np_max_def floor_sig_def ceil_sig_def
        order_of_mag_4 order_of_mag_2 endpoints_def q Let_def)
qed

text \<open>
  With the default window the sample \<open>[-4, -2]\<close> has the working endpoints \<open>-3.95\<close> and
  \<open>-2.05\<close>, both below zero. With \<open>'log'\<close>, \<open>cutpoints\<close> raises the invalid-range error on
  this input, and \<open>numericVarCutpoints\<close>, whose test is \<open>ep[0] == 0 or ep[1] == 0\<close>,
  returns normally.
\<close>

theorem log_range_not_raised:
  "bounds_endpoints [- 4, - 2] (Some [PyFloat (25/1000), PyFloat (975/1000)]) 3
      = Inr (- 4, - 2, - (395/100), - (205/100)) \<and>
   cutpoints [- 4, - 2] (Some [PyFloat (25/1000), PyFloat (975/1000)]) (CutsStr ''log'') 10 3
      = Inl (ValueError LogRangeIncludesZero) \<and>
   \<not> isl (numericVarCutpoints [- 4, - 2] (Some [PyFloat (25/1000), PyFloat (975/1000)])
            (CutsStr ''log'') 10 3)"
proof -
  note b = bounds_endpoints_neg
  have i: "\<not> isl (interior (\<lambda>ep0 ep1. ep0 = 0 \<or> ep1 = 0) [- 4, - 2] (CutsStr ''log'') 10
      (- (79/20)) (- (41/20)))"
    by (simp add: interior_def log_points_total)
  obtain c where ic: "interior (\<lambda>ep0 ep1. ep0 = 0 \<or> ep1 = 0) [- 4, - 2] (CutsStr ''log'') 10
      (- (79/20)) (- (41/20)) = Inr c"
    using i by (cases "interior (\<lambda>ep0 ep1. ep0 = 0 \<or> ep1 = 0) [- 4, - 2] (CutsStr ''log'') 10
      (- (79/20)) (- (41/20))") auto
  have m: "\<not> isl (map_err (\<lambda>i. humanReadableNum i 3) (round_cutpoints 3 (- 4) c (- 2)))"
    by (rule map_err_total) (rule humanReadableNum_total, simp)
  have h: "\<not> isl (numericVarCutpoints [- 4, - 2] (Some [PyFloat (1/40), PyFloat (39/40)])
            (CutsStr ''log'') 10 3)"
    using m by (cases "map_err (\<lambda>i. humanReadableNum i 3) (round_cutpoints 3 (- 4) c (- 2))")
      (auto simp: numericVarCutpoints_def b ic Let_def)
  have c: "cutpoints [- 4, - 2] (Some [PyFloat (1/40), PyFloat (39/40)]) (CutsStr ''log'') 10 3
      = Inl (ValueError LogRangeIncludesZero)"
    by (simp add: cutpoints_def b interior_def)
  show ?thesis using b h c by simp
qed

subsection \<open>Malformed configurations\<close>

lemma bounds_endpoints_float_window:
  assumes "x \<noteq> []"
  shows "bounds_endpoints x (Some [PyFloat lo, PyFloat hi]) s =
     (if lo < 0 \<or> 1 < lo \<or> hi < 0 \<or> 1 < hi then Inl (ValueError QuantileRange)
      else Inr (floor_sig (Min (set x)) s, ceil_sig (Max (set x)) s,
                quantile1 x lo, quantile1 x hi))"
  using assms
  by (auto simp: bounds_endpoints_def np_min_def np_max_def endpoints_def np_quantile_def Let_def)

lemma numericVarCutpoints_Inl_linear:
  assumes "3 \<le> s"
  shows "numericVarCutpoints x q (CutsStr ''linear'') ncuts s = Inl e \<longleftrightarrow>
         cutpoints x q (CutsStr ''linear'') ncuts s = Inl e"
proof (cases "bounds_endpoints x q s")
  case (Inl e')
  then show ?thesis by (simp add: numericVarCutpoints_def cutpoints_def)
next
  case (Inr b)
  obtain lb ub ep0 ep1 where b: "b = (lb, ub, ep0, ep1)" by (cases b) auto
  show ?thesis
  proof (cases "np_linspace ep0 ep1 ncuts")
    case (Inl e')
    then show ?thesis using Inr b
      by (simp add: numericVarCutpoints_def cutpoints_def interior_def)
  next
    case c: (Inr c)
    have "\<not> isl (map_err (\<lambda>i. humanReadableNum i s) (round_cutpoints s lb c ub))"
      by (rule map_err_total) (rule humanReadableNum_total[OF assms])
    then obtain fs where
      "map_err (\<lambda>i. humanReadableNum i s) (round_cutpoints s lb c ub) = Inr fs"
      by (cases "map_err (\<lambda>i. humanReadableNum i s) (round_cutpoints s lb c ub)") auto
    then show ?thesis using Inr b c
      by (simp add: numericVarCutpoints_def cutpoints_def interior_def)
  qed
qed

text \<open>
  Claim C8, as the code has it. The generators check no configuration value themselves.
  On a non-empty sample, with a window of two floats and the linear strategy, \<open>cutpoints\<close>
  fails in two cases only, each with the \<open>ValueError\<close> of the numeric routine that detects
  it, handed to the caller as it is: a quantile fraction outside \<open>[0, 1]\<close>, and a negative
  count. The same holds of \<open>numericVarCutpoints\<close> for three significant figures or more.
  A window whose lower fraction is not below the upper one, and a count of zero, are
  accepted.
\<close>

theorem linear_config_errors:
  assumes "x \<noteq> []"
  shows "(cutpoints x (Some [PyFloat lo, PyFloat hi]) (CutsStr ''linear'') ncuts sig_fig = Inl e \<longleftrightarrow>
     (e = ValueError QuantileRange \<and> (lo < 0 \<or> 1 < lo \<or> hi < 0 \<or> 1 < hi)) \<or>
     (e = ValueError NegativeNum \<and> 0 \<le> lo \<and> lo \<le> 1 \<and> 0 \<le> hi \<and> hi \<le> 1 \<and> ncuts < 0)) \<and>
    (3 \<le> sig_fig \<longrightarrow>
     (numericVarCutpoints x (Some [PyFloat lo, PyFloat hi]) (CutsStr ''linear'') ncuts sig_fig = Inl e
        \<longleftrightarrow>
      (e = ValueError QuantileRange \<and> (lo < 0 \<or> 1 < lo \<or> hi < 0 \<or> 1 < hi)) \<or>
      (e = ValueError NegativeNum \<and> 0 \<le> lo \<and> lo \<le> 1 \<and> 0 \<le> hi \<and> hi \<le> 1 \<and> ncuts < 0)))"
proof -
  have c: "cutpoints x (Some [PyFloat lo, PyFloat hi]) (CutsStr ''linear'') ncuts sig_fig = Inl e \<longleftrightarrow>
     (e = ValueError QuantileRange \<and> (lo < 0 \<or> 1 < lo \<or> hi < 0 \<or> 1 < hi)) \<or>
     (e = ValueError NegativeNum \<and> 0 \<le> lo \<and> lo \<le> 1 \<and> 0 \<le> hi \<and> hi \<le> 1 \<and> ncuts < 0)"
    using bounds_endpoints_float_window[OF assms, of lo hi sig_fig]
    by (auto simp: cutpoints_def interior_def np_linspace_def split: if_splits)
  show ?thesis
    using c numericVarCutpoints_Inl_linear[of sig_fig x "Some [PyFloat lo, PyFloat hi]" ncuts e]
    by blast
qed

theorem linear_config_errors_witness:
  "[1, 2, 3 :: real] \<noteq> [] \<and> 3 \<le> (3 :: int) \<and>
   cutpoints [1, 2, 3] (Some [PyFloat (1/4), PyFloat (3/4)]) (CutsStr ''linear'') (- 1) 3
     = Inl (ValueError NegativeNum) \<and>
   numericVarCutpoints [1, 2, 3] (Some [PyFloat (1/4), PyFloat (3/4)]) (CutsStr ''linear'') (- 1) 3
     = Inl (ValueError NegativeNum)"
proof -
  have h: "[1, 2, 3 :: real] \<noteq> []" by simp
  show ?thesis
    using linear_config_errors[OF h, of "1/4" "3/4" "- 1" 3 "ValueError NegativeNum"] by simp
qed

lemma order_of_mag_small:
  "order_of_mag 1 = 0" "order_of_mag 3 = 0" "order_of_mag (3/2) = 0" "order_of_mag (5/2) = 0"
  by (simp_all add: order_of_mag_def log_spcl_def floor_log_eqI[of 10 0 3]
      floor_log_eqI[of 10 0 "3/2"] floor_log_eqI[of 10 0 "5/2"])

text \<open>
  The window \<open>[0.75, 0.25]\<close>, whose lower fraction is above the upper one, and a count
  of zero both return cutpoints, from either generator.
\<close>

theorem linear_config_accepted:
  "cutpoints [1, 2, 3] (Some [PyFloat (3/4), PyFloat (1/4)]) (CutsStr ''linear'') 3 3
     = Inr [1, 3/2, 2, 5/2, 3] \<and>
   cutpoints [1, 2, 3] (Some [PyFloat (1/4), PyFloat (3/4)]) (CutsStr ''linear'') 0 3
     = Inr [1, 3] \<and>
   \<not> isl (numericVarCutpoints [1, 2, 3] (Some [PyFloat (3/4), PyFloat (1/4)])
            (CutsStr ''linear'') 3 3) \<and>
   \<not> isl (numericVarCutpoints [1, 2, 3] (Some [PyFloat (1/4), PyFloat (3/4)])
            (CutsStr ''linear'') 0 3)"
proof -
  have n: "\<not> isl (numericVarCutpoints x q (CutsStr ''linear'') k 3)"
    if "cutpoints x q (CutsStr ''linear'') k 3 = Inr cs" for x q k cs
  proof
    assume "isl (numericVarCutpoints x q (CutsStr ''linear'') k 3)"
    then obtain e where "numericVarCutpoints x q (CutsStr ''linear'') k 3 = Inl e"
      by (cases "numericVarCutpoints x q (CutsStr ''linear'') k 3") auto
    then have "cutpoints x q (CutsStr ''linear'') k 3 = Inl e"
      using numericVarCutpoints_Inl_linear[of 3 x q k e] by simp
    then show False using that by simp
  qed
  have q: "np_quantile [1, 2, 3] [3/4, 1/4] = Inr [5/2, 3/2]"
          "np_quantile [1, 2, 3] [1/4, 3/4] = Inr [3/2, 5/2]"
    by (simp_all add: np_quantile_def quantile1_def Let_def)
  have b: "bounds_endpoints [1, 2, 3] (Some [PyFloat (3/4), PyFloat (1/4)]) 3 = Inr (1, 3, 5/2, 3/2)"
          "bounds_endpoints [1, 2, 3] (Some [PyFloat (1/4), PyFloat (3/4)]) 3 = Inr (1, 3, 3/2, 5/2)"
    by (simp_all add: bounds_endpoints_def np_min_def np_max_def floor_sig_def ceil_sig_def
        order_of_mag_small endpoints_def q Let_def)
  have u3: "[0..<3] = [0, 1, 2]" by code_simp
  have l: "np_linspace (5/2) (3/2) 3 = Inr [5/2, 2, 3/2]" "np_linspace (3/2) (5/2) 0 = Inr []"
    by (simp_all add: np_linspace_def u3)
  have r: "round_sig 3 1 = 1" "round_sig 3 (3/2) = 3/2" "round_sig 3 2 = 2"
    "round_sig 3 (5/2) = 5/2" "round_sig 3 3 = 3"
    by (simp_all add: round_sig_def order_of_mag_small order_of_mag_2 np_round_def rint_def Let_def)
  have rc: "round_cutpoints 3 1 [5/2, 2, 3/2] 3 = [1, 3/2, 2, 5/2, 3]"
    "round_cutpoints 3 1 [] 3 = [1, 3]"
    by (simp_all add: round_cutpoints_def np_unique_def r Let_def)
  have c: "cutpoints [1, 2, 3] (Some [PyFloat (3/4), PyFloat (1/4)]) (CutsStr ''linear'') 3 3
       = Inr [1, 3/2, 2, 5/2, 3]"
    "cutpoints [1, 2, 3] (Some [PyFloat (1/4), PyFloat (3/4)]) (CutsStr ''linear'') 0 3
       = Inr [1, 3]"
    by (simp_all add: cutpoints_def b interior_def l rc)
  show ?thesis using c n[OF c(1)] n[OF c(2)] by simp
qed

lemma numericVarCutpoints_InrD:
  assumes "numericVarCutpoints x q cuts ncuts s = Inr (cs, fs)"
  obtains lb ub ep0 ep1 c where "bounds_endpoints x q s = Inr (lb, ub, ep0, ep1)"
    "interior (\<lambda>ep0 ep1. ep0 = 0 \<or> ep1 = 0) x cuts ncuts ep0 ep1 = Inr c"
    "cs = round_cutpoints s lb c ub"
  using assms by (auto simp: numericVarCutpoints_def Let_def split: sum.splits prod.splits)

lemma bounds_endpoints_bounds:
  assumes "bounds_endpoints x q s = Inr (lb, ub, ep0, ep1)"
  shows "x \<noteq> [] \<and> lb = floor_sig (Min (set x)) s \<and> ub = ceil_sig (Max (set x)) s"
  using assms
  by (auto simp: bounds_endpoints_def np_min_def np_max_def Let_def
      split: sum.splits prod.splits if_splits)

lemma round_cutpoints_two:
  assumes "round_sig s lb \<noteq> round_sig s ub"
  shows "2 \<le> length (round_cutpoints s lb c ub)"
proof -
  let ?cs = "round_cutpoints s lb c ub"
  have "{round_sig s lb, round_sig s ub} \<subseteq> set ?cs"
    by (auto simp: set_round_cutpoints)
  then have "card {round_sig s lb, round_sig s ub} \<le> card (set ?cs)"
    by (intro card_mono) simp_all
  moreover have "card {round_sig s lb, round_sig s ub} = 2" using assms by simp
  moreover have "card (set ?cs) \<le> length ?cs" by (rule card_length)
  ultimately show ?thesis by linarith
qed

lemma round_cutpoints_shape:
  assumes "bounds_endpoints x q s = Inr (lb, ub, ep0, ep1)" "cs = round_cutpoints s lb c ub"
  shows "x \<noteq> [] \<and> sorted_wrt (<) cs \<and> 1 \<le> length cs \<and>
     (round_sig s (floor_sig (Min (set x)) s) \<noteq> round_sig s (ceil_sig (Max (set x)) s)
        \<longrightarrow> 2 \<le> length cs)"
proof -
  have b: "x \<noteq> []" "lb = floor_sig (Min (set x)) s" "ub = ceil_sig (Max (set x)) s"
    using bounds_endpoints_bounds[OF assms(1)] by simp_all
  have "sorted_wrt (<) cs" "cs \<noteq> []"
    using assms(2) round_cutpoints_strict[of s lb c ub] round_cutpoints_nonempty[of s lb c ub]
    by simp_all
  moreover from \<open>cs \<noteq> []\<close> have "1 \<le> length cs" by (cases cs) simp_all
  moreover have "round_sig s lb \<noteq> round_sig s ub \<longrightarrow> 2 \<le> length cs"
    using assms(2) round_cutpoints_two[of s lb ub c] by simp
  ultimately show ?thesis using b by simp
qed

lemma fmt_f_small: "fmt_f 2 1 = Inr ''1.00''" "fmt_f 2 2 = Inr ''2.00''"
proof -
  have r: "rint (1 * 10 ^ 2) = 100" "rint (2 * 10 ^ 2) = 200" by (simp_all add: rint_def Let_def)
  have s: "str_nat (100 div 10 ^ 2) @ CHR ''.'' # frac_digits 2 (100 mod 10 ^ 2) = ''1.00''"
    "str_nat (200 div 10 ^ 2) @ CHR ''.'' # frac_digits 2 (200 mod 10 ^ 2) = ''2.00''"
    by code_simp+
  show "fmt_f 2 1 = Inr ''1.00''" "fmt_f 2 2 = Inr ''2.00''"
    using r s by (simp_all add: fmt_f_def Let_def)
qed

lemma hrn_small: "human_readable_num 1 3 = Inr ''1.00''" "human_readable_num 2 3 = Inr ''2.00''"
proof -
  have m: "\<lfloor>log 1000 \<bar>1 :: real\<bar>\<rfloor> = 0" "\<lfloor>log 1000 \<bar>2 :: real\<bar>\<rfloor> = 0"
    by (simp_all add: floor_log_eqI[of 1000 0 2])
  have u: "units ! nat 0 = []" by (simp add: units_def)
  show "human_readable_num 1 3 = Inr ''1.00''" "human_readable_num 2 3 = Inr ''2.00''"
    unfolding human_readable_num_def Let_def m using fmt_f_small u by simp_all
qed

lemma upt2: "[0..<2] = [0, 1]"
  by code_simp

lemma cutpoints_12: "cutpoints [1, 2] None (CutsStr ''linear'') 2 3 = Inr [1, 2]"
proof -
  have b: "bounds_endpoints [1, 2] None 3 = Inr (1, 2, 1, 2)"
    by (simp add: bounds_endpoints_def np_min_def np_max_def floor_sig_def ceil_sig_def
        order_of_mag_small order_of_mag_2 endpoints_def Let_def)
  have l: "np_linspace 1 2 2 = Inr [1, 2]"
    by (simp add: np_linspace_def upt2)
  have r: "round_sig 3 1 = 1" "round_sig 3 2 = 2"
    by (simp_all add: round_sig_def order_of_mag_small order_of_mag_2 np_round_def rint_def Let_def)
  have "round_cutpoints 3 1 [1, 2] 2 = [1, 2]"
    by (simp add: round_cutpoints_def np_unique_def r Let_def)
  then show ?thesis by (simp add: cutpoints_def b interior_def l)
qed

lemma numericVarCutpoints_12:
  "numericVarCutpoints [1, 2] None (CutsStr ''linear'') 2 3 = Inr ([1, 2], [''1.00'', ''2.00''])"
proof -
  have b: "bounds_endpoints [1, 2] None 3 = Inr (1, 2, 1, 2)"
    by (simp add: bounds_endpoints_def np_min_def np_max_def floor_sig_def ceil_sig_def
        order_of_mag_small order_of_mag_2 endpoints_def Let_def)
  have l: "np_linspace 1 2 2 = Inr [1, 2]"
    by (simp add: np_linspace_def upt2)
  have r: "round_sig 3 1 = 1" "round_sig 3 2 = 2"
    by (simp_all add: round_sig_def order_of_mag_small order_of_mag_2 np_round_def rint_def Let_def)
  have c: "round_cutpoints 3 1 [1, 2] 2 = [1, 2]"
    by (simp add: round_cutpoints_def np_unique_def r Let_def)
  show ?thesis
    by (simp add: numericVarCutpoints_def b interior_def l c humanReadableNum_eq hrn_small)
qed

text \<open>
  Claim C2, as the code has it. Whenever one of the two cutpoint generators returns, with
  any strategy, window and significant-figure setting, the sample is not empty, the
  cutpoints are strictly increasing and there is at least one of them. There are at least
  two whenever the two bounds of the sample (its minimum rounded down, its maximum
  rounded up) still differ after the final rounding of the points. Two cutpoints are not
  guaranteed otherwise: the bounds of a sample can coincide.
\<close>

theorem cutpoints_strictly_increasing:
  assumes "cutpoints x q cuts ncuts s = Inr cs \<or>
           numericVarCutpoints x q cuts ncuts s = Inr (cs, fs)"
  shows "x \<noteq> [] \<and> sorted_wrt (<) cs \<and> 1 \<le> length cs \<and>
     (round_sig s (floor_sig (Min (set x)) s) \<noteq> round_sig s (ceil_sig (Max (set x)) s)
        \<longrightarrow> 2 \<le> length cs)"
  using assms
proof
  assume "cutpoints x q cuts ncuts s = Inr cs"
  then obtain lb ub ep0 ep1 c where "bounds_endpoints x q s = Inr (lb, ub, ep0, ep1)"
    "cs = round_cutpoints s lb c ub"
    by (rule cutpoints_InrD)
  then show ?thesis by (rule round_cutpoints_shape)
next
  assume "numericVarCutpoints x q cuts ncuts s = Inr (cs, fs)"
  then obtain lb ub ep0 ep1 c where "bounds_endpoints x q s = Inr (lb, ub, ep0, ep1)"
    "cs = round_cutpoints s lb c ub"
    by (rule numericVarCutpoints_InrD)
  then show ?thesis by (rule round_cutpoints_shape)
qed

text \<open>
  The sample \<open>[1, 2]\<close> without a quantile window, with the linear strategy, two cuts and
  three significant figures: both generators return the two cutpoints 1 and 2, which are
  the rounded bounds.
\<close>

theorem cutpoints_strictly_increasing_witness:
  "cutpoints [1, 2] None (CutsStr ''linear'') 2 3 = Inr [1, 2] \<and>
   numericVarCutpoints [1, 2] None (CutsStr ''linear'') 2 3 = Inr ([1, 2], [''1.00'', ''2.00'']) \<and>
   round_sig 3 (floor_sig (Min (set [1, 2])) 3) = 1 \<and>
   round_sig 3 (ceil_sig (Max (set [1, 2])) 3) = 2 \<and>
   sorted_wrt (<) [1, 2 :: real] \<and> 2 \<le> length [1, 2 :: real]"
proof -
  have r: "round_sig 3 (floor_sig (Min (set [1, 2])) 3) = 1"
    "round_sig 3 (ceil_sig (Max (set [1, 2])) 3) = 2"
    by (simp_all add: floor_sig_def ceil_sig_def round_sig_def order_of_mag_small order_of_mag_2
        np_round_def rint_def Let_def)
  have c: "cutpoints [1, 2] None (CutsStr ''linear'') 2 3 = Inr [1, 2] \<or>
      numericVarCutpoints [1, 2] None (CutsStr ''linear'') 2 3 = Inr ([1, 2], [''1.00'', ''2.00''])"
    using cutpoints_12 by simp
  show ?thesis
    using cutpoints_strictly_increasing[OF c] r cutpoints_12 numericVarCutpoints_12 by simp
qed

text \<open>
  The sample \<open>[5]\<close> with the default window, the linear strategy, ten cuts and three
  significant figures gives the single cutpoint 5.
\<close>

theorem cutpoints_single_value:
  "cutpoints [5] (Some [PyFloat (25/1000), PyFloat (975/1000)]) (CutsStr ''linear'') 10 3 = Inr [5]
   \<and> length [5 :: real] < 2"
  using cutpoints_five by simp

subsection \<open>Bin assembly: the removed cutpoints\<close>

lemma finalize_135: "finalize_bins [1,3,5] [''1.00'',''3.00'',''5.00''] [3] [''3.00'']
   = Inr ([1,3,5], [''01: 1.00 - 3.00'', ''03: 3.00 - 5.00''], [''02: 3.00''])"
  by code_simp

lemma argmin_acc_min:
  assumes "b < length pre" "i = length pre" "pre ! b = bv" "\<forall>k \<in> set pre. bv \<le> k"
  shows "argmin_acc ks i b bv < length (pre @ ks) \<and>
         (\<forall>k \<in> set (pre @ ks). (pre @ ks) ! argmin_acc ks i b bv \<le> k)"
  using assms
proof (induction ks arbitrary: pre i b bv)
  case Nil
  then show ?case by simp
next
  case (Cons k ks)
  show ?case
  proof (cases "k < bv")
    case True
    have "argmin_acc ks (Suc i) i k < length ((pre @ [k]) @ ks) \<and>
         (\<forall>k' \<in> set ((pre @ [k]) @ ks). ((pre @ [k]) @ ks) ! argmin_acc ks (Suc i) i k \<le> k')"
    proof (rule Cons.IH)
      show "i < length (pre @ [k])" using Cons.prems(2) by simp
      show "Suc i = length (pre @ [k])" using Cons.prems(2) by simp
      show "(pre @ [k]) ! i = k" using Cons.prems(2) by simp
      show "\<forall>k' \<in> set (pre @ [k]). k \<le> k'" using Cons.prems(4) True by auto
    qed
    then show ?thesis using True by simp
  next
    case False
    have "argmin_acc ks (Suc i) b bv < length ((pre @ [k]) @ ks) \<and>
         (\<forall>k' \<in> set ((pre @ [k]) @ ks). ((pre @ [k]) @ ks) ! argmin_acc ks (Suc i) b bv \<le> k')"
    proof (rule Cons.IH)
      show "b < length (pre @ [k])" using Cons.prems(1) by simp
      show "Suc i = length (pre @ [k])" using Cons.prems(2) by simp
      show "(pre @ [k]) ! b = bv" using Cons.prems(1,3) by (simp add: nth_append)
      show "\<forall>k' \<in> set (pre @ [k]). bv \<le> k'" using Cons.prems(4) False by auto
    qed
    then show ?thesis using False by simp
  qed
qed

lemma argmin_acc_first:
  assumes "b < length pre" "i = length pre" "pre ! b = bv" "\<forall>k \<in> set pre. bv \<le> k"
    "\<forall>k < b. bv < pre ! k"
  shows "\<forall>k < argmin_acc ks i b bv. (pre @ ks) ! argmin_acc ks i b bv < (pre @ ks) ! k"
  using assms
proof (induction ks arbitrary: pre i b bv)
  case Nil
  then show ?case by simp
next
  case (Cons k ks)
  show ?case
  proof (cases "k < bv")
    case True
    have "\<forall>k' < argmin_acc ks (Suc i) i k.
            ((pre @ [k]) @ ks) ! argmin_acc ks (Suc i) i k < ((pre @ [k]) @ ks) ! k'"
    proof (rule Cons.IH)
      show "i < length (pre @ [k])" using Cons.prems(2) by simp
      show "Suc i = length (pre @ [k])" using Cons.prems(2) by simp
      show "(pre @ [k]) ! i = k" using Cons.prems(2) by simp
      show "\<forall>k' \<in> set (pre @ [k]). k \<le> k'" using Cons.prems(4) True by auto
      show "\<forall>k' < i. k < (pre @ [k]) ! k'"
      proof (intro allI impI)
        fix k' assume "k' < i"
        then have "pre ! k' \<in> set pre" using Cons.prems(2) by simp
        then have "bv \<le> pre ! k'" using Cons.prems(4) by blast
        then show "k < (pre @ [k]) ! k'"
          using True \<open>k' < i\<close> Cons.prems(2) by (simp add: nth_append)
      qed
    qed
    then show ?thesis using True by simp
  next
    case False
    have "\<forall>k' < argmin_acc ks (Suc i) b bv.
            ((pre @ [k]) @ ks) ! argmin_acc ks (Suc i) b bv < ((pre @ [k]) @ ks) ! k'"
    proof (rule Cons.IH)
      show "b < length (pre @ [k])" using Cons.prems(1) by simp
      show "Suc i = length (pre @ [k])" using Cons.prems(2) by simp
      show "(pre @ [k]) ! b = bv" using Cons.prems(1,3) by (simp add: nth_append)
      show "\<forall>k' \<in> set (pre @ [k]). bv \<le> k'" using Cons.prems(4) False by auto
      show "\<forall>k' < b. bv < (pre @ [k]) ! k'"
        using Cons.prems(1,5) by (simp add: nth_append)
    qed
    then show ?thesis using False by simp
  qed
qed

lemma argmin_first_first:
  assumes "keys \<noteq> []"
  shows "\<forall>i < argmin_first keys. keys ! argmin_first keys < keys ! i"
proof -
  obtain k ks where keys: "keys = k # ks" using assms by (cases keys) auto
  have "\<forall>i < argmin_acc ks 1 0 k. ([k] @ ks) ! argmin_acc ks 1 0 k < ([k] @ ks) ! i"
    by (rule argmin_acc_first) simp_all
  then show ?thesis by (simp add: argmin_first_def keys)
qed

lemma argmin_first_min:
  assumes "keys \<noteq> []"
  shows "argmin_first keys < length keys \<and> (\<forall>k \<in> set keys. keys ! argmin_first keys \<le> k)"
proof -
  obtain k ks where keys: "keys = k # ks" using assms by (cases keys) auto
  have "argmin_acc ks 1 0 k < length ([k] @ ks) \<and>
        (\<forall>k' \<in> set ([k] @ ks). ([k] @ ks) ! argmin_acc ks 1 0 k \<le> k')"
    by (rule argmin_acc_min) simp_all
  then show ?thesis by (simp add: argmin_first_def keys)
qed

lemma nearest_interior_nearest:
  assumes "2 < length cps"
  shows "1 \<le> nearest_interior cps j \<and> nearest_interior cps j \<le> length cps - 2 \<and>
         (\<forall>i. 1 \<le> i \<and> i \<le> length cps - 2 \<longrightarrow>
              \<bar>cps ! nearest_interior cps j - j\<bar> \<le> \<bar>cps ! i - j\<bar>)"
proof -
  define cps_int where "cps_int = butlast (tl cps)"
  define keys where "keys = map (\<lambda>c. \<bar>c - j\<bar>) cps_int"
  have len: "length cps_int = length cps - 2" by (simp add: cps_int_def)
  have nth: "cps_int ! i = cps ! (i + 1)" if "i < length cps_int" for i
    using that by (simp add: cps_int_def nth_butlast nth_tl)
  have ne: "keys \<noteq> []" using assms len by (auto simp: keys_def)
  let ?r = "argmin_first keys"
  have r: "?r < length keys" "\<forall>k \<in> set keys. keys ! ?r \<le> k"
    using argmin_first_min[OF ne] by simp_all
  have rl: "?r < length cps_int" using r(1) by (simp add: keys_def)
  have ni: "nearest_interior cps j = ?r + 1"
    by (simp add: nearest_interior_def keys_def cps_int_def)
  have m: "\<bar>cps ! (?r + 1) - j\<bar> \<le> \<bar>cps ! i - j\<bar>" if "1 \<le> i" "i \<le> length cps - 2" for i
  proof -
    have il: "i - 1 < length cps_int" using that len by simp
    then have "keys ! (i - 1) \<in> set keys" by (simp add: keys_def)
    then have "keys ! ?r \<le> keys ! (i - 1)" using r(2) by blast
    then show ?thesis using il rl nth[OF il] nth[OF rl] that by (simp add: keys_def)
  qed
  show ?thesis using rl len m by (simp add: ni)
qed


lemma nearest_interior_first:
  assumes "2 < length cps"
  shows "\<forall>i. 1 \<le> i \<and> i < nearest_interior cps j \<longrightarrow>
              \<bar>cps ! nearest_interior cps j - j\<bar> < \<bar>cps ! i - j\<bar>"
proof -
  define cps_int where "cps_int = butlast (tl cps)"
  define keys where "keys = map (\<lambda>c. \<bar>c - j\<bar>) cps_int"
  have len: "length cps_int = length cps - 2" by (simp add: cps_int_def)
  have nth: "cps_int ! i = cps ! (i + 1)" if "i < length cps_int" for i
    using that by (simp add: cps_int_def nth_butlast nth_tl)
  have ne: "keys \<noteq> []" using assms len by (auto simp: keys_def)
  let ?r = "argmin_first keys"
  have r: "?r < length keys" using argmin_first_min[OF ne] by simp
  have f: "\<forall>i < ?r. keys ! ?r < keys ! i" by (rule argmin_first_first[OF ne])
  have rl: "?r < length cps_int" using r by (simp add: keys_def)
  have ni: "nearest_interior cps j = ?r + 1"
    by (simp add: nearest_interior_def keys_def cps_int_def)
  have "\<bar>cps ! (?r + 1) - j\<bar> < \<bar>cps ! i - j\<bar>" if "1 \<le> i" "i < ?r + 1" for i
  proof -
    have il: "i - 1 < ?r" using that by simp
    then have il': "i - 1 < length cps_int" using rl by simp
    have "keys ! ?r < keys ! (i - 1)" using f il by blast
    then show ?thesis using il' rl nth[OF il'] nth[OF rl] that by (simp add: keys_def)
  qed
  then show ?thesis by (simp add: ni)
qed

lemma del_at_map: "del_at i (map f xs) = map f (del_at i xs)"
  by (simp add: del_at_def take_map drop_map)

lemma length_del_at: "i < length xs \<Longrightarrow> length (del_at i xs) = length xs - 1"
  by (simp add: del_at_def)

lemma nth_del_at_below: "k < i \<Longrightarrow> i < length xs \<Longrightarrow> del_at i xs ! k = xs ! k"
  by (simp add: del_at_def nth_append)

lemma set_del_at_distinct:
  assumes "distinct xs" "i < length xs"
  shows "set (del_at i xs) = set xs - {xs ! i}" "distinct (del_at i xs)"
proof -
  have xs: "xs = take i xs @ xs ! i # drop (Suc i) xs"
    using assms(2) by (rule id_take_nth_drop)
  have d: "distinct (take i xs @ xs ! i # drop (Suc i) xs)" using assms(1) xs by simp
  have "set xs = set (take i xs) \<union> {xs ! i} \<union> set (drop (Suc i) xs)"
    by (subst xs) auto
  moreover have "xs ! i \<notin> set (take i xs)" "xs ! i \<notin> set (drop (Suc i) xs)"
    using d by auto
  ultimately show "set (del_at i xs) = set xs - {xs ! i}" by (auto simp: del_at_def)
  show "distinct (del_at i xs)" using d by (auto simp: del_at_def)
qed

lemma del_all_desc:
  assumes "sorted_wrt (>) idx" "\<forall>i \<in> set idx. i < length xs" "length fs = length xs"
  shows "\<exists>xs' fs'. del_all idx xs fs = Inr (xs', fs') \<and> length fs' = length xs' \<and>
           (distinct xs \<longrightarrow> set xs' = set xs - (\<lambda>i. xs ! i) ` set idx) \<and>
           (\<forall>f. fs = map f xs \<longrightarrow> fs' = map f xs')"
  using assms
proof (induction idx arbitrary: xs fs)
  case Nil
  then show ?case by simp
next
  case (Cons i rest)
  have il: "i < length xs" and below: "\<forall>r \<in> set rest. r < i" and srt: "sorted_wrt (>) rest"
    using Cons.prems(1,2) by auto
  have "\<exists>xs' fs'. del_all rest (del_at i xs) (del_at i fs) = Inr (xs', fs') \<and>
           length fs' = length xs' \<and>
           (distinct (del_at i xs) \<longrightarrow>
              set xs' = set (del_at i xs) - (\<lambda>r. del_at i xs ! r) ` set rest) \<and>
           (\<forall>f. del_at i fs = map f (del_at i xs) \<longrightarrow> fs' = map f xs')"
  proof (rule Cons.IH[OF srt])
    show "\<forall>r \<in> set rest. r < length (del_at i xs)"
      using below il by (auto simp: length_del_at)
    show "length (del_at i fs) = length (del_at i xs)"
      using il Cons.prems(3) by (simp add: length_del_at)
  qed
  then obtain xs' fs' where r: "del_all rest (del_at i xs) (del_at i fs) = Inr (xs', fs')"
      "length fs' = length xs'"
      "distinct (del_at i xs) \<longrightarrow>
              set xs' = set (del_at i xs) - (\<lambda>r. del_at i xs ! r) ` set rest"
      "\<forall>f. del_at i fs = map f (del_at i xs) \<longrightarrow> fs' = map f xs'"
    by blast
  have a: "del_all (i # rest) xs fs = Inr (xs', fs')"
    using il Cons.prems(3) r(1) by simp
  have b: "set xs' = set xs - (\<lambda>k. xs ! k) ` set (i # rest)" if dx: "distinct xs"
  proof -
    have same: "(\<lambda>r. del_at i xs ! r) ` set rest = (\<lambda>r. xs ! r) ` set rest"
      using below il by (auto simp: nth_del_at_below)
    show ?thesis
      using r(3) set_del_at_distinct[OF dx il] same by auto
  qed
  have c: "fs' = map f xs'" if "fs = map f xs" for f
    using r(4) that by (simp add: del_at_map)
  show ?case using a r(2) b c by blast
qed

lemma desc_indices: "sorted_wrt (>) (rev (sort (remdups (ridx :: nat list))))"
proof -
  have "sorted_wrt (<) (sort (remdups ridx))" by (simp add: strict_sorted_iff)
  then show ?thesis by (simp add: sorted_wrt_rev)
qed

lemma reduce_cutpoints:
  assumes "length cps_format = length cps"
  shows "\<exists>cps' cf'.
     remove_nearest cps cps_format pm = Inr (cps', cf') \<and> length cf' = length cps' \<and>
     (distinct cps \<longrightarrow> set cps' = set cps -
        (if 2 < length cps then (\<lambda>j. cps ! nearest_interior cps j) ` set pm else {})) \<and>
     (\<forall>f. cps_format = map f cps \<longrightarrow> cf' = map f cps')"
proof (cases "2 < length cps")
  case False
  then show ?thesis using assms by (simp add: remove_nearest_def)
next
  case True
  let ?idx = "rev (sort (remdups (map (nearest_interior cps) pm)))"
  have ni: "nearest_interior cps j < length cps" for j
  proof -
    have "nearest_interior cps j \<le> length cps - 2"
      using nearest_interior_nearest[OF True, of j] by blast
    then show ?thesis using True by linarith
  qed
  have v: "\<forall>i \<in> set ?idx. i < length cps"
    using ni by auto
  obtain xs' fs' where r: "del_all ?idx cps cps_format = Inr (xs', fs')" "length fs' = length xs'"
      "distinct cps \<longrightarrow> set xs' = set cps - (\<lambda>i. cps ! i) ` set ?idx"
      "\<forall>f. cps_format = map f cps \<longrightarrow> fs' = map f xs'"
    using del_all_desc[OF desc_indices v assms] by blast
  have img: "(\<lambda>i. cps ! i) ` set ?idx = (\<lambda>j. cps ! nearest_interior cps j) ` set pm"
    by auto
  show ?thesis using True r img by (simp add: remove_nearest_def Let_def)
qed


lemma merge_bins_set:
  assumes "length cf = length cps" "length pf = length pm" "cps @ pm \<noteq> []"
  shows "\<exists>c_final bl pl. merge_bins cps cf pm pf = Inr (c_final, bl, pl) \<and>
           set c_final = set cps \<union> set pm \<and> sorted c_final"
proof -
  define z where "z = remdups (zip (cps @ pm) (cf @ pf))"
  have len: "length (cps @ pm) = length (cf @ pf)" using assms by simp
  have fz: "fst ` set z = set (cps @ pm)"
    using len by (simp add: z_def map_fst_zip flip: set_map)
  have ne: "z \<noteq> []" using fz assms(3) by auto
  define c_final where "c_final = sort (map fst z)"
  obtain cntr bl pl where f: "fold (label_step c_final (map snd (sort z)) pm)
      [0..<length c_final] (0, [], []) = (cntr, bl, pl)"
    by (metis prod_cases3)
  have "merge_bins cps cf pm pf = Inr (c_final, bl, pl)"
    using ne f unfolding merge_bins_def Let_def z_def[symmetric] c_final_def[symmetric]
    by simp
  moreover have "set c_final = set cps \<union> set pm" using fz by (simp add: c_final_def)
  moreover have "sorted c_final" by (simp add: c_final_def)
  ultimately show ?thesis by blast
qed

text \<open>
  Claim C5, as the code has it. For cutpoints without duplicates, with one formatted text
  per cutpoint and per point mass, bin assembly returns. With more than two cutpoints,
  the index marked for a point mass is an interior one whose cutpoint is nearest to the
  point mass by absolute distance, and it is the first such index: every interior
  cutpoint before it is strictly farther from the point mass. The values of the merged
  boundary list are the cutpoints that were not marked, together with the point masses.
  A marked cutpoint is thus absent from the merged list unless it equals a point mass.
\<close>

theorem removed_cutpoints:
  assumes "distinct cps" "length cps_format = length cps" "length pm_format = length pm"
    "cps \<noteq> []"
  shows "\<exists>c_final bin_labels pm_labels.
      finalize_bins cps cps_format pm pm_format = Inr (c_final, bin_labels, pm_labels) \<and>
      set c_final =
        (set cps - (if 2 < length cps then (\<lambda>j. cps ! nearest_interior cps j) ` set pm else {}))
        \<union> set pm \<and>
      (2 < length cps \<longrightarrow> (\<forall>j \<in> set pm.
          1 \<le> nearest_interior cps j \<and> nearest_interior cps j \<le> length cps - 2 \<and>
          (\<forall>i. 1 \<le> i \<and> i \<le> length cps - 2 \<longrightarrow>
               \<bar>cps ! nearest_interior cps j - j\<bar> \<le> \<bar>cps ! i - j\<bar>) \<and>
          (\<forall>i. 1 \<le> i \<and> i < nearest_interior cps j \<longrightarrow>
               \<bar>cps ! nearest_interior cps j - j\<bar> < \<bar>cps ! i - j\<bar>)))"
proof -
  obtain cps' cf' where r: "remove_nearest cps cps_format pm = Inr (cps', cf')"
      "length cf' = length cps'"
      "set cps' = set cps -
        (if 2 < length cps then (\<lambda>j. cps ! nearest_interior cps j) ` set pm else {})"
    using reduce_cutpoints[OF assms(2), of pm] assms(1) by blast
  have ne: "cps' @ pm \<noteq> []"
  proof (cases "pm = []")
    case True
    then have "set cps' = set cps" using r(3) by simp
    then show ?thesis using assms(4) by auto
  next
    case False
    then show ?thesis by simp
  qed
  obtain c_final bl pl where m: "merge_bins cps' cf' pm pm_format = Inr (c_final, bl, pl)"
      "set c_final = set cps' \<union> set pm"
    using merge_bins_set[OF r(2) assms(3) ne] by blast
  have f: "finalize_bins cps cps_format pm pm_format = Inr (c_final, bl, pl)"
    using r(1) m(1) by (simp add: finalize_bins_def)
  have s: "set c_final =
        (set cps - (if 2 < length cps then (\<lambda>j. cps ! nearest_interior cps j) ` set pm else {}))
        \<union> set pm"
    using m(2) r(3) by simp
  have n: "2 < length cps \<longrightarrow> (\<forall>j \<in> set pm.
          1 \<le> nearest_interior cps j \<and> nearest_interior cps j \<le> length cps - 2 \<and>
          (\<forall>i. 1 \<le> i \<and> i \<le> length cps - 2 \<longrightarrow>
               \<bar>cps ! nearest_interior cps j - j\<bar> \<le> \<bar>cps ! i - j\<bar>) \<and>
          (\<forall>i. 1 \<le> i \<and> i < nearest_interior cps j \<longrightarrow>
               \<bar>cps ! nearest_interior cps j - j\<bar> < \<bar>cps ! i - j\<bar>))"
    using nearest_interior_nearest[of cps] nearest_interior_first[of cps] by blast
  show ?thesis using f s n by blast
qed

text \<open>
  The cutpoints 1, 2, 4, 5 with the point mass 3: the interior cutpoints 2 and 4 are
  both at distance 1, the first of them (index 1) is marked, and the merged boundaries
  are 1, 3, 4, 5.
\<close>

theorem removed_cutpoints_witness:
  "distinct [1, 2, 4, 5 :: real] \<and>
   length [''1.00'', ''2.00'', ''4.00'', ''5.00''] = length [1, 2, 4, 5 :: real] \<and>
   length [''3.00''] = length [3 :: real] \<and> [1, 2, 4, 5 :: real] \<noteq> [] \<and>
   2 < length [1, 2, 4, 5 :: real] \<and> \<bar>2 - 3 :: real\<bar> = \<bar>4 - 3\<bar> \<and>
   nearest_interior [1, 2, 4, 5] 3 = 1 \<and>
   (\<exists>c_final bin_labels pm_labels.
      finalize_bins [1, 2, 4, 5] [''1.00'', ''2.00'', ''4.00'', ''5.00''] [3] [''3.00'']
         = Inr (c_final, bin_labels, pm_labels) \<and>
      set c_final = {1, 3, 4, 5})"
proof -
  have h: "distinct [1, 2, 4, 5 :: real]"
    "length [''1.00'', ''2.00'', ''4.00'', ''5.00''] = length [1, 2, 4, 5 :: real]"
    "length [''3.00''] = length [3 :: real]" "[1, 2, 4, 5 :: real] \<noteq> []"
    by simp_all
  obtain c_final bl pl where
    f: "finalize_bins [1, 2, 4, 5] [''1.00'', ''2.00'', ''4.00'', ''5.00''] [3] [''3.00'']
          = Inr (c_final, bl, pl)"
    and s: "set c_final = (set [1, 2, 4, 5 :: real] -
       (if 2 < length [1, 2, 4, 5 :: real]
        then (\<lambda>j. [1, 2, 4, 5] ! nearest_interior [1, 2, 4, 5] j) ` set [3] else {}))
       \<union> set [3]"
    and t: "2 < length [1, 2, 4, 5 :: real] \<longrightarrow> (\<forall>j \<in> set [3 :: real].
          1 \<le> nearest_interior [1, 2, 4, 5] j \<and>
          nearest_interior [1, 2, 4, 5] j \<le> length [1, 2, 4, 5 :: real] - 2 \<and>
          (\<forall>i. 1 \<le> i \<and> i \<le> length [1, 2, 4, 5 :: real] - 2 \<longrightarrow>
               \<bar>[1, 2, 4, 5] ! nearest_interior [1, 2, 4, 5] j - j\<bar> \<le> \<bar>[1, 2, 4, 5] ! i - j\<bar>) \<and>
          (\<forall>i. 1 \<le> i \<and> i < nearest_interior [1, 2, 4, 5] j \<longrightarrow>
               \<bar>[1, 2, 4, 5] ! nearest_interior [1, 2, 4, 5] j - j\<bar> < \<bar>[1, 2, 4, 5] ! i - j\<bar>))"
    using removed_cutpoints[OF h] by blast
  have l: "2 < length [1, 2, 4, 5 :: real]" and m: "(3 :: real) \<in> set [3]"
    by simp_all
  have b1: "1 \<le> nearest_interior [1, 2, 4, 5] 3"
    and b2: "nearest_interior [1, 2, 4, 5] 3 \<le> length [1, 2, 4, 5 :: real] - 2"
    and fst: "\<forall>i. 1 \<le> i \<and> i < nearest_interior [1, 2, 4, 5] 3 \<longrightarrow>
        \<bar>[1, 2, 4, 5] ! nearest_interior [1, 2, 4, 5] 3 - 3\<bar> < \<bar>[1, 2, 4, 5 :: real] ! i - 3\<bar>"
    using t l m by blast+
  have b: "1 \<le> nearest_interior [1, 2, 4, 5] 3" "nearest_interior [1, 2, 4, 5] 3 \<le> 2"
    using b1 b2 by simp_all
  have n: "nearest_interior [1, 2, 4, 5] 3 = 1"
  proof (rule ccontr)
    assume "nearest_interior [1, 2, 4, 5] 3 \<noteq> 1"
    then have two: "nearest_interior [1, 2, 4, 5] 3 = 2" using b by linarith
    have "(1 :: nat) \<le> 1 \<and> (1 :: nat) < 2 \<longrightarrow>
        \<bar>[1, 2, 4, 5] ! 2 - 3\<bar> < \<bar>[1, 2, 4, 5 :: real] ! 1 - 3\<bar>"
      using fst unfolding two by blast
    then show False by simp
  qed
  have "insert (3 :: real) ({1, 2, 4, 5} - {2}) = {1, 3, 4, 5}" by auto
  then have "set c_final = {1, 3, 4, 5}" unfolding s by (simp add: n)
  then show ?thesis using f h n by simp
qed

text \<open>
  With the cutpoints 1, 3, 5 and the point mass 3, the interior cutpoint nearest to the
  point mass is 3 itself, at index 1; it is removed from the cutpoints and comes back
  into the merged boundary list as the point mass.
\<close>

theorem removed_cutpoint_still_present:
  "finalize_bins [1, 3, 5] [''1.00'', ''3.00'', ''5.00''] [3] [''3.00'']
     = Inr ([1, 3, 5], [''01: 1.00 - 3.00'', ''03: 3.00 - 5.00''], [''02: 3.00'']) \<and>
   nearest_interior [1, 3, 5] 3 = 1 \<and> [1, 3, 5 :: real] ! 1 = 3 \<and> (3 :: real) \<in> set [1, 3, 5]"
proof -
  have "nearest_interior [1, 3, 5] 3 = 1"
    by (simp add: nearest_interior_def argmin_first_def)
  then show ?thesis using finalize_135 by simp
qed

subsection \<open>The unused \<open>max_levels\<close> of the histograms cutter\<close>

text \<open>
  Claim C10. In the histograms module \<open>cutter\<close> never hands its parameter \<open>max_levels\<close>
  to the cutpoint generator: for every data frame, column and keyword configuration
  (and every behaviour of the bucketing routine), two calls that differ only in
  \<open>max_levels\<close> give the same result, a normal one or an exception. The number of cuts
  is the keyword \<open>ncuts\<close>, and an absent keyword is the same as \<open>ncuts = 10\<close>.
\<close>

theorem cutter_max_levels_unused:
  "histograms_cutter bucket df x max_levels kwargs = histograms_cutter bucket df x max_levels' kwargs \<and>
   histograms_cutter bucket df x max_levels (kwargs\<lparr>h_ncuts := None\<rparr>)
     = histograms_cutter bucket df x max_levels (kwargs\<lparr>h_ncuts := Some 10\<rparr>)"
  by (cases "numeric_values df x") (simp_all add: histograms_cutter_def)

subsection \<open>The wrappers \<open>binner\<close> and \<open>binner_df\<close>\<close>

lemma pd_cut_12:
  "pd_cut [Some 1, Some 2] [1, 2] [''01: 1.00 - 2.00'']
     = Inr ([Some ''01: 1.00 - 2.00'', Some ''01: 1.00 - 2.00''], [''01: 1.00 - 2.00''])"
  by code_simp

lemma histograms_cutter_12:
  "histograms_cutter pd_cut [(''x'', NumCol [Some 1, Some 2])] ''x'' 20
      \<lparr>h_qntlCutoff = Some None, h_cuts = None, h_ncuts = Some 2, h_sigFig = None\<rparr>
     = Inr ([Some ''01: 1.00 - 2.00'', Some ''01: 1.00 - 2.00''], [''01: 1.00 - 2.00''])"
proof -
  have n: "numeric_values [(''x'', NumCol [Some 1, Some 2])] ''x'' = Inr [Some 1, Some 2]"
    by (simp add: numeric_values_def)
  have v: "no_nan [Some 1, Some 2] = [1, 2]"
    by (simp add: no_nan_def)
  have l: "zfill2 (str_nat (Suc 0)) = ''01''"
    by code_simp
  show ?thesis
    by (simp add: histograms_cutter_def n v numericVarCutpoints_12 l pd_cut_12)
qed

lemma cutter_bins_12:
  "cutter_bins [Some 1, Some 2] 2 (1/2) 3
      \<lparr>b_point_mass_threshold = Some (1/2), b_sig_fig = None, b_qntl_cutoff = Some None,
       b_cuts = None, b_ncuts = None\<rparr>
     = Inr ([], [1, 2], [''01: 1.00 - 2.00''], [])"
proof -
  have p: "point_mass [Some 1, Some 2] (1/2) = []"
    by (simp add: point_mass_def no_nan_def Let_def)
  have v: "no_nan [Some 1, Some 2] = [1, 2]"
    by (simp add: no_nan_def)
  have f: "finalize_bins [1, 2] [''1.00'', ''2.00''] [] [] = Inr ([1, 2], [''01: 1.00 - 2.00''], [])"
    by code_simp
  show ?thesis
    unfolding cutter_bins_def p v
    by (simp add: cutter_cutpoints_def cutpoints_12 hrn_small f)
qed

lemma binners_cutter_12:
  "binners_cutter pd_cut [(''x'', NumCol [Some 1, Some 2])] ''x'' 2
      \<lparr>b_point_mass_threshold = Some (1/2), b_sig_fig = None, b_qntl_cutoff = Some None,
       b_cuts = None, b_ncuts = None\<rparr>
     = Inr ([Some ''01: 1.00 - 2.00'', Some ''01: 1.00 - 2.00''], [''01: 1.00 - 2.00''])"
proof -
  have n: "numeric_values [(''x'', NumCol [Some 1, Some 2])] ''x'' = Inr [Some 1, Some 2]"
    by (simp add: numeric_values_def)
  have c: "pd_Categorical [Some ''01: 1.00 - 2.00'', Some ''01: 1.00 - 2.00''] [''01: 1.00 - 2.00'']
     = Inr ([Some ''01: 1.00 - 2.00'', Some ''01: 1.00 - 2.00''], [''01: 1.00 - 2.00''])"
    by (simp add: pd_Categorical_def)
  show ?thesis
    unfolding binners_cutter_def n
    by (simp add: cutter_bins_12 pd_cut_12 loc_assign_def c)
qed

lemma cutters_all_missing:
  "histograms_cutter pd_cut [(''x'', NumCol [None, None])] ''x'' 20
      \<lparr>h_qntlCutoff = None, h_cuts = None, h_ncuts = None, h_sigFig = None\<rparr>
     = Inl (ValueError EmptyReduction)"
  "binners_cutter pd_cut [(''x'', NumCol [None, None])] ''x'' 20
      \<lparr>b_point_mass_threshold = None, b_sig_fig = None, b_qntl_cutoff = None,
       b_cuts = None, b_ncuts = None\<rparr>
     = Inl (ValueError EmptyReduction)"
  by (simp_all add: histograms_cutter_def binners_cutter_def numeric_values_def no_nan_def
      numericVarCutpoints_def cutter_bins_def point_mass_def cutter_cutpoints_def cutpoints_def
      bounds_endpoints_def np_min_def)

text \<open>
  Claim C9. Neither wrapper ever returns normally, and its parameter \<open>fill_nan\<close> has no
  effect. When the call of \<open>cutter\<close> that computes the binned column returns, the wrapper
  raises \<open>NameError\<close> for the unbound name \<open>fill_na\<close>; when that call raises, the wrapper
  raises the same exception instead.
\<close>

theorem wrappers_never_return:
  "(histograms_cutter bucket df x max_levels kw = Inr z \<longrightarrow>
      binner bucket df x new_col fill_nan max_levels kw = Inl (NameError ''fill_na'')) \<and>
   (histograms_cutter bucket df x max_levels kw = Inl e \<longrightarrow>
      binner bucket df x new_col fill_nan max_levels kw = Inl e) \<and>
   (binners_cutter bucket df x max_levels kw' = Inr z' \<longrightarrow>
      binner_df bucket df x new_col fill_nan max_levels kw' = Inl (NameError ''fill_na'')) \<and>
   (binners_cutter bucket df x max_levels kw' = Inl e' \<longrightarrow>
      binner_df bucket df x new_col fill_nan max_levels kw' = Inl e') \<and>
   isl (binner bucket df x new_col fill_nan max_levels kw) \<and>
   isl (binner_df bucket df x new_col fill_nan max_levels kw') \<and>
   binner bucket df x new_col fill_nan max_levels kw = binner bucket df x new_col fill_nan' max_levels kw \<and>
   binner_df bucket df x new_col fill_nan max_levels kw'
     = binner_df bucket df x new_col fill_nan' max_levels kw'"
  by (simp add: binner_def binner_df_def split: sum.splits)

theorem wrappers_never_return_witness:
  "histograms_cutter pd_cut [(''x'', NumCol [Some 1, Some 2])] ''x'' 20
      \<lparr>h_qntlCutoff = Some None, h_cuts = None, h_ncuts = Some 2, h_sigFig = None\<rparr>
     = Inr ([Some ''01: 1.00 - 2.00'', Some ''01: 1.00 - 2.00''], [''01: 1.00 - 2.00'']) \<and>
   binner pd_cut [(''x'', NumCol [Some 1, Some 2])] ''x'' ''x_bin'' (Some ''missing'') 20
      \<lparr>h_qntlCutoff = Some None, h_cuts = None, h_ncuts = Some 2, h_sigFig = None\<rparr>
     = Inl (NameError ''fill_na'') \<and>
   binners_cutter pd_cut [(''x'', NumCol [Some 1, Some 2])] ''x'' 2
      \<lparr>b_point_mass_threshold = Some (1/2), b_sig_fig = None, b_qntl_cutoff = Some None,
       b_cuts = None, b_ncuts = None\<rparr>
     = Inr ([Some ''01: 1.00 - 2.00'', Some ''01: 1.00 - 2.00''], [''01: 1.00 - 2.00'']) \<and>
   binner_df pd_cut [(''x'', NumCol [Some 1, Some 2])] ''x'' ''x_bin'' (Some ''missing'') 2
      \<lparr>b_point_mass_threshold = Some (1/2), b_sig_fig = None, b_qntl_cutoff = Some None,
       b_cuts = None, b_ncuts = None\<rparr>
     = Inl (NameError ''fill_na'') \<and>
   histograms_cutter pd_cut [(''y'', NumCol [Some 1, Some 2])] ''x'' 20
      \<lparr>h_qntlCutoff = None, h_cuts = None, h_ncuts = None, h_sigFig = None\<rparr>
     = Inl (KeyError ''x'') \<and>
   binner pd_cut [(''y'', NumCol [Some 1, Some 2])] ''x'' ''x_bin'' None 20
      \<lparr>h_qntlCutoff = None, h_cuts = None, h_ncuts = None, h_sigFig = None\<rparr>
     = Inl (KeyError ''x'') \<and>
   binners_cutter pd_cut [(''y'', NumCol [Some 1, Some 2])] ''x'' 20
      \<lparr>b_point_mass_threshold = None, b_sig_fig = None, b_qntl_cutoff = None,
       b_cuts = None, b_ncuts = None\<rparr>
     = Inl (KeyError ''x'') \<and>
   binner_df pd_cut [(''y'', NumCol [Some 1, Some 2])] ''x'' ''x_bin'' None 20
      \<lparr>b_point_mass_threshold = None, b_sig_fig = None, b_qntl_cutoff = None,
       b_cuts = None, b_ncuts = None\<rparr>
     = Inl (KeyError ''x'')"
proof -
  have k: "histograms_cutter pd_cut [(''y'', NumCol [Some 1, Some 2])] ''x'' 20
      \<lparr>h_qntlCutoff = None, h_cuts = None, h_ncuts = None, h_sigFig = None\<rparr>
     = Inl (KeyError ''x'')"
    "binners_cutter pd_cut [(''y'', NumCol [Some 1, Some 2])] ''x'' 20
      \<lparr>b_point_mass_threshold = None, b_sig_fig = None, b_qntl_cutoff = None,
       b_cuts = None, b_ncuts = None\<rparr>
     = Inl (KeyError ''x'')"
    by (simp_all add: histograms_cutter_def binners_cutter_def numeric_values_def)
  show ?thesis
    using
      wrappers_never_return[of pd_cut "[(''x'', NumCol [Some 1, Some 2])]" "''x''" 20
        "\<lparr>h_qntlCutoff = Some None, h_cuts = None, h_ncuts = Some 2, h_sigFig = None\<rparr>"
        "([Some ''01: 1.00 - 2.00'', Some ''01: 1.00 - 2.00''], [''01: 1.00 - 2.00''])"
        "''x_bin''" "Some ''missing''"]
      wrappers_never_return[of pd_cut "[(''x'', NumCol [Some 1, Some 2])]" "''x''" 2 _ _ 
        "''x_bin''" "Some ''missing''" _
        "\<lparr>b_point_mass_threshold = Some (1/2), b_sig_fig = None, b_qntl_cutoff = Some None,
          b_cuts = None, b_ncuts = None\<rparr>"
        "([Some ''01: 1.00 - 2.00'', Some ''01: 1.00 - 2.00''], [''01: 1.00 - 2.00''])"]
      wrappers_never_return[of pd_cut "[(''y'', NumCol [Some 1, Some 2])]" "''x''" 20
        "\<lparr>h_qntlCutoff = None, h_cuts = None, h_ncuts = None, h_sigFig = None\<rparr>" _
        "''x_bin''" None "KeyError ''x''"
        "\<lparr>b_point_mass_threshold = None, b_sig_fig = None, b_qntl_cutoff = None,
          b_cuts = None, b_ncuts = None\<rparr>" _ "KeyError ''x''"]
      histograms_cutter_12 binners_cutter_12 k
    by simp
qed

text \<open>
  On a column that holds only missing values, both wrappers raise the \<open>ValueError\<close> of
  the minimum of an empty array, which the cutpoint generator meets first; no
  \<open>NameError\<close> is raised.
\<close>

theorem wrappers_other_error:
  "binner pd_cut [(''x'', NumCol [None, None])] ''x'' ''x_bin'' None 20
      \<lparr>h_qntlCutoff = None, h_cuts = None, h_ncuts = None, h_sigFig = None\<rparr>
     = Inl (ValueError EmptyReduction) \<and>
   binner_df pd_cut [(''x'', NumCol [None, None])] ''x'' ''x_bin'' None 20
      \<lparr>b_point_mass_threshold = None, b_sig_fig = None, b_qntl_cutoff = None,
       b_cuts = None, b_ncuts = None\<rparr>
     = Inl (ValueError EmptyReduction) \<and>
   ValueError EmptyReduction \<noteq> NameError ''fill_na''"
  by (simp add: binner_def binner_df_def cutters_all_missing)

subsection \<open>The error of the \<open>'log'\<close> strategy in the binners module\<close>

lemma quantile1_mono:
  assumes "xs \<noteq> []" "0 \<le> q0" "q0 \<le> q1" "q1 \<le> 1"
  shows "quantile1 xs q0 \<le> quantile1 xs q1"
proof -
  define s where "s = sort xs"
  define N where "N = length xs - 1"
  define p0 where "p0 = q0 * real N"
  define p1 where "p1 = q1 * real N"
  define l0 where "l0 = nat \<lfloor>p0\<rfloor>"
  define l1 where "l1 = nat \<lfloor>p1\<rfloor>"
  define h0 where "h0 = min (l0 + 1) N"
  define h1 where "h1 = min (l1 + 1) N"
  have len: "length s = N + 1" using assms(1) by (cases xs) (simp_all add: s_def N_def)
  have srt: "sorted s" by (simp add: s_def)
  have mono: "s ! i \<le> s ! j" if "i \<le> j" "j \<le> N" for i j
    using srt that len by (simp add: sorted_nth_mono)
  have p: "0 \<le> p0" "p0 \<le> p1" "p1 \<le> real N"
  proof -
    show "0 \<le> p0" using assms(2) by (simp add: p0_def)
    show "p0 \<le> p1" using assms(3) by (simp add: p0_def p1_def mult_right_mono)
    have "q1 * real N \<le> 1 * real N" using assms(4) by (intro mult_right_mono) simp_all
    then show "p1 \<le> real N" by (simp add: p1_def)
  qed
  have fl: "0 \<le> \<lfloor>p0\<rfloor>" "\<lfloor>p0\<rfloor> \<le> \<lfloor>p1\<rfloor>" "\<lfloor>p1\<rfloor> \<le> int N"
  proof -
    show "0 \<le> \<lfloor>p0\<rfloor>" using p(1) by simp
    show "\<lfloor>p0\<rfloor> \<le> \<lfloor>p1\<rfloor>" using p(2) by (rule floor_mono)
    have "\<lfloor>p1\<rfloor> \<le> \<lfloor>real N\<rfloor>" using p(3) by (rule floor_mono)
    then show "\<lfloor>p1\<rfloor> \<le> int N" by simp
  qed
  have l: "l0 \<le> l1" "l1 \<le> N"
  proof -
    show "l0 \<le> l1" unfolding l0_def l1_def using fl(2) by (rule nat_mono)
    have "nat \<lfloor>p1\<rfloor> \<le> nat (int N)" using fl(3) by (rule nat_mono)
    then show "l1 \<le> N" by (simp add: l1_def)
  qed
  have r0: "real l0 = of_int \<lfloor>p0\<rfloor>" unfolding l0_def using fl(1) by (rule of_nat_nat)
  have "0 \<le> \<lfloor>p1\<rfloor>" using fl(1,2) by linarith
  then have r1: "real l1 = of_int \<lfloor>p1\<rfloor>" unfolding l1_def by (rule of_nat_nat)
  have f0: "0 \<le> p0 - real l0" "p0 - real l0 \<le> 1" unfolding r0 by linarith+
  have f1: "0 \<le> p1 - real l1" "p1 - real l1 \<le> 1" unfolding r1 by linarith+
  have e0: "quantile1 xs q0 = s ! l0 + (s ! h0 - s ! l0) * (p0 - real l0)"
    by (simp add: quantile1_def Let_def s_def N_def p0_def l0_def h0_def)
  have e1: "quantile1 xs q1 = s ! l1 + (s ! h1 - s ! l1) * (p1 - real l1)"
    by (simp add: quantile1_def Let_def s_def N_def p1_def l1_def h1_def)
  have d0: "s ! l0 \<le> s ! h0" using l by (intro mono) (simp_all add: h0_def)
  have d1: "s ! l1 \<le> s ! h1" using l by (intro mono) (simp_all add: h1_def)
  show ?thesis
  proof (cases "l0 = l1")
    case True
    then have h: "h0 = h1" by (simp add: h0_def h1_def)
    have "(s ! h1 - s ! l1) * (p0 - real l1) \<le> (s ! h1 - s ! l1) * (p1 - real l1)"
      using d1 p(2) by (intro mult_left_mono) simp_all
    then show ?thesis unfolding e0 e1 using True h by simp
  next
    case False
    then have lt: "l0 + 1 \<le> l1" using l(1) by simp
    then have h: "h0 = l0 + 1" using l(2) by (simp add: h0_def)
    have "(s ! h0 - s ! l0) * (p0 - real l0) \<le> (s ! h0 - s ! l0) * 1"
      using d0 f0(2) by (intro mult_left_mono) simp_all
    then have a: "quantile1 xs q0 \<le> s ! h0" unfolding e0 by simp
    have b: "s ! h0 \<le> s ! l1" unfolding h using lt l(2) by (intro mono) simp_all
    have "0 \<le> (s ! h1 - s ! l1) * (p1 - real l1)" using d1 f1(1) by simp
    then have c: "s ! l1 \<le> quantile1 xs q1" unfolding e1 by simp
    show ?thesis using a b c by linarith
  qed
qed

lemma floor_sig_le: "floor_sig m s \<le> m"
proof -
  have "of_int \<lfloor>m * 10 powi k\<rfloor> / 10 powi k \<le> m" for k :: int
  proof -
    have p: "(0 :: real) < 10 powi k" by simp
    have "of_int \<lfloor>m * 10 powi k\<rfloor> \<le> m * 10 powi k" by simp
    then show ?thesis using p by (simp add: pos_divide_le_eq)
  qed
  then show ?thesis by (simp add: floor_sig_def Let_def)
qed

lemma ceil_sig_ge: "m \<le> ceil_sig m s"
proof -
  have "m \<le> of_int \<lceil>m * 10 powi k\<rceil> / 10 powi k" for k :: int
  proof -
    have p: "(0 :: real) < 10 powi k" by simp
    have "m * 10 powi k \<le> of_int \<lceil>m * 10 powi k\<rceil>" by simp
    then show ?thesis using p by (simp add: pos_le_divide_eq)
  qed
  then show ?thesis by (simp add: ceil_sig_def Let_def)
qed

lemma endpoints_cases:
  assumes "endpoints x q lb ub = Inr (ep0, ep1)"
  shows "(\<exists>q0 q1. q = Some [PyFloat q0, PyFloat q1] \<and> 0 \<le> q0 \<and> q0 \<le> 1 \<and> 0 \<le> q1 \<and> q1 \<le> 1 \<and>
            ep0 = quantile1 x q0 \<and> ep1 = quantile1 x q1) \<or> (ep0 = lb \<and> ep1 = ub)"
  using assms
  by (auto simp: endpoints_def np_quantile_def
      split: option.splits list.splits pynum.splits if_splits)

lemma bounds_endpoints_ordered:
  assumes "bounds_endpoints x q s = Inr (lb, ub, ep0, ep1)"
    and "\<forall>q0 q1. q = Some [PyFloat q0, PyFloat q1] \<longrightarrow> q0 \<le> q1"
  shows "ep0 \<le> ep1"
proof -
  have b: "x \<noteq> []" "lb = floor_sig (Min (set x)) s" "ub = ceil_sig (Max (set x)) s"
    using bounds_endpoints_bounds[OF assms(1)] by simp_all
  have e: "endpoints x q lb ub = Inr (ep0, ep1)"
    using assms(1)
    by (auto simp: bounds_endpoints_def np_min_def np_max_def Let_def
        split: sum.splits prod.splits if_splits)
  from endpoints_cases[OF e] show ?thesis
  proof
    assume "\<exists>q0 q1. q = Some [PyFloat q0, PyFloat q1] \<and> 0 \<le> q0 \<and> q0 \<le> 1 \<and> 0 \<le> q1 \<and> q1 \<le> 1 \<and>
            ep0 = quantile1 x q0 \<and> ep1 = quantile1 x q1"
    then obtain q0 q1 where q: "q = Some [PyFloat q0, PyFloat q1]" "0 \<le> q0" "q1 \<le> 1"
      "ep0 = quantile1 x q0" "ep1 = quantile1 x q1" by blast
    have "q0 \<le> q1" using assms(2) q(1) by blast
    then show ?thesis using quantile1_mono[OF b(1) q(2) _ q(3)] q(4,5) by simp
  next
    assume l: "ep0 = lb \<and> ep1 = ub"
    have "Min (set x) \<le> Max (set x)" using b(1) by simp
    then have "lb \<le> ub"
      using floor_sig_le[of "Min (set x)" s] ceil_sig_ge[of "Max (set x)" s] b(2,3) by linarith
    then show ?thesis using l by simp
  qed
qed

text \<open>
  Claim C1. Let the working endpoints be computed, on a window that is absent or whose
  lower fraction is not above the upper one. With the strategy \<open>'log'\<close>, \<open>cutpoints\<close>
  raises the invalid-range error, in place of any cutpoint set, as soon as one of the two
  endpoints is at most zero: the lower endpoint is never above the upper one, and the
  test is on the lower one. With any other strategy neither generator raises this error.
  (\<open>numericVarCutpoints\<close> with \<open>'log'\<close> does not meet the claim: its test is the equality of
  an endpoint with zero.)
\<close>

theorem log_range_error:
  assumes "bounds_endpoints x q s = Inr (lb, ub, ep0, ep1)"
    and "\<forall>q0 q1. q = Some [PyFloat q0, PyFloat q1] \<longrightarrow> q0 \<le> q1"
  shows "(ep0 \<le> 0 \<or> ep1 \<le> 0 \<longrightarrow>
            cutpoints x q (CutsStr ''log'') ncuts s = Inl (ValueError LogRangeIncludesZero)) \<and>
         (cuts \<noteq> CutsStr ''log'' \<longrightarrow>
            cutpoints x q cuts ncuts s \<noteq> Inl (ValueError LogRangeIncludesZero) \<and>
            numericVarCutpoints x q cuts ncuts s \<noteq> Inl (ValueError LogRangeIncludesZero))"
proof -
  have o: "ep0 \<le> ep1" using assms by (rule bounds_endpoints_ordered)
  have "cutpoints x q (CutsStr ''log'') ncuts s = Inl (ValueError LogRangeIncludesZero)"
    if "ep0 \<le> 0 \<or> ep1 \<le> 0"
  proof -
    have "ep0 \<le> 0" using that o by linarith
    then show ?thesis using assms(1) cutpoints_log_iff[of x q "CutsStr ''log''" ncuts s] by blast
  qed
  then show ?thesis
    using cutpoints_log_iff[of x q cuts ncuts s] numericVarCutpoints_log_iff[of x q cuts ncuts s]
    by blast
qed

theorem log_range_error_witness:
  "bounds_endpoints [- 4, - 2] (Some [PyFloat (1/40), PyFloat (39/40)]) 3
      = Inr (- 4, - 2, - (79/20), - (41/20)) \<and>
   (1/40 :: real) \<le> 39/40 \<and> (- (79/20) :: real) \<le> 0 \<and>
   cutpoints [- 4, - 2] (Some [PyFloat (1/40), PyFloat (39/40)]) (CutsStr ''log'') 10 3
      = Inl (ValueError LogRangeIncludesZero) \<and>
   CutsStr ''linear'' \<noteq> CutsStr ''log'' \<and>
   cutpoints [- 4, - 2] (Some [PyFloat (1/40), PyFloat (39/40)]) (CutsStr ''linear'') 10 3
      \<noteq> Inl (ValueError LogRangeIncludesZero) \<and>
   numericVarCutpoints [- 4, - 2] (Some [PyFloat (1/40), PyFloat (39/40)]) (CutsStr ''linear'') 10 3
      \<noteq> Inl (ValueError LogRangeIncludesZero)"
proof -
  have w: "\<forall>q0 q1. Some [PyFloat (1/40), PyFloat (39/40)] = Some [PyFloat q0, PyFloat q1]
      \<longrightarrow> q0 \<le> q1"
    by simp
  show ?thesis
    using log_range_error[OF bounds_endpoints_neg w, of 10 "CutsStr ''linear''"]
      bounds_endpoints_neg
    by simp
qed

subsection \<open>Point masses in the binned column\<close>

























end
